theory Spec2Isabelle
  imports Complex_Main "HOL-Library.Word"
begin

section \<open>Confidence estimation for a place from its review signals\<close>

text \<open>
  The repository holds three variants of a browser popup script. One of them
  (\<^verbatim>\<open>src/confInt.js\<close>) scores a place from its total review count and a
  category profile; the two others (\<^verbatim>\<open>src/unnamed/part_000\<close>,
  \<^verbatim>\<open>src/unnamed/part_001\<close>) score it from the distribution of its reviews
  over the five star ratings.

  The arithmetic of the code is given twice. First as the formulas it writes
  down, over the reals: this is the reading of the specification, where
  \<open>point = (normalized / maxReviews) * weight * 100\<close> is an equation between
  numbers. Then as the engine evaluates these formulas, in double precision, where
  every operation rounds its result: this is the reading under which a property
  of all inputs is a property of the program. In the first reading two places
  where JavaScript and HOL differ on the reals are kept out of reach by
  hypotheses or by the guards of the code itself: a division by zero
  (\<^verbatim>\<open>Infinity\<close> or \<^verbatim>\<open>NaN\<close> in JavaScript, \<open>0\<close> in HOL) and \<^verbatim>\<open>Math.sqrt\<close> of a
  negative number (\<^verbatim>\<open>NaN\<close> in JavaScript).
\<close>

subsection \<open>Aggregate-count path (\<^verbatim>\<open>src/confInt.js\<close>)\<close>

text \<open>One entry of the table \<^verbatim>\<open>categoryConfigs\<close>.\<close>

record categoryConfig =
  maxReviews :: real
  weight :: real
  baseUncertaintyFactor :: real

text \<open>
  The table \<^verbatim>\<open>categoryConfigs\<close> (lines 32-43). A JavaScript object with string keys
  is enumerated by \<^verbatim>\<open>for ... in\<close> in the order its keys were inserted, so the
  table is an association list in the order of the source.
\<close>

definition categoryConfigs :: "(string \<times> categoryConfig) list" where
  "categoryConfigs =
    [(''Restaurant'', \<lparr>maxReviews = 5000, weight = 85 / 100, baseUncertaintyFactor = 15 / 100\<rparr>),
     (''Cafe'', \<lparr>maxReviews = 3000, weight = 80 / 100, baseUncertaintyFactor = 20 / 100\<rparr>),
     (''Store'', \<lparr>maxReviews = 2000, weight = 70 / 100, baseUncertaintyFactor = 30 / 100\<rparr>),
     (''Park'', \<lparr>maxReviews = 500, weight = 40 / 100, baseUncertaintyFactor = 60 / 100\<rparr>),
     (''Hotel'', \<lparr>maxReviews = 10000, weight = 90 / 100, baseUncertaintyFactor = 10 / 100\<rparr>),
     (''Museum'', \<lparr>maxReviews = 1500, weight = 65 / 100, baseUncertaintyFactor = 35 / 100\<rparr>),
     (''Bank'', \<lparr>maxReviews = 300, weight = 30 / 100, baseUncertaintyFactor = 70 / 100\<rparr>),
     (''Hospital'', \<lparr>maxReviews = 2000, weight = 50 / 100, baseUncertaintyFactor = 50 / 100\<rparr>),
     (''School'', \<lparr>maxReviews = 1000, weight = 45 / 100, baseUncertaintyFactor = 55 / 100\<rparr>),
     (''Generic'', \<lparr>maxReviews = 1000, weight = 55 / 100, baseUncertaintyFactor = 45 / 100\<rparr>)]"

text \<open>
  The profile a category profile is expected to be (section 3 of the specification):
  a positive saturation ceiling, and a weight and an uncertainty factor in \<open>(0, 1]\<close>.
\<close>

definition validConfig :: "categoryConfig \<Rightarrow> bool" where
  "validConfig cfg \<longleftrightarrow>
     0 < maxReviews cfg \<and> 0 < weight cfg \<and> weight cfg \<le> 1 \<and>
     0 < baseUncertaintyFactor cfg \<and> baseUncertaintyFactor cfg \<le> 1"

text \<open>
  Lines 61-78 of the click handler, one definition for each \<^verbatim>\<open>const\<close> of the source,
  as a function of the review count and the selected profile.
\<close>

definition normalizedReviews :: "real \<Rightarrow> categoryConfig \<Rightarrow> real" where
  "normalizedReviews reviewsCount cfg = min reviewsCount (maxReviews cfg)"

definition mu_confidence_score :: "real \<Rightarrow> categoryConfig \<Rightarrow> real" where
  "mu_confidence_score reviewsCount cfg =
     (normalizedReviews reviewsCount cfg / maxReviews cfg) * weight cfg * 100"

definition effectiveSampleSize :: "real \<Rightarrow> real" where
  "effectiveSampleSize reviewsCount = sqrt (reviewsCount + 1)"

definition baseErrorMagnitude :: real where
  "baseErrorMagnitude = 20"

definition se :: "real \<Rightarrow> categoryConfig \<Rightarrow> real" where
  "se reviewsCount cfg =
     (baseErrorMagnitude * baseUncertaintyFactor cfg) / effectiveSampleSize reviewsCount"

definition k_z_score :: real where
  "k_z_score = 196 / 100"

definition lowerBound :: "real \<Rightarrow> categoryConfig \<Rightarrow> real" where
  "lowerBound reviewsCount cfg =
     max 0 (mu_confidence_score reviewsCount cfg - se reviewsCount cfg * k_z_score)"

definition upperBound :: "real \<Rightarrow> categoryConfig \<Rightarrow> real" where
  "upperBound reviewsCount cfg =
     min 100 (mu_confidence_score reviewsCount cfg + se reviewsCount cfg * k_z_score)"

text \<open>
  Lines 46-57: the selection of the profile. A JavaScript string is a sequence of
  16-bit code units; a string literal of the source, which is ASCII, is the list
  of the codes of its characters.
\<close>

type_synonym code_unit = "16 word"

type_synonym js_string = "code_unit list"

definition js :: "string \<Rightarrow> js_string" where
  "js s = map of_char s"

text \<open>
  \<^verbatim>\<open>String.prototype.toLowerCase\<close> is a built-in of the JavaScript engine, driven
  by the Unicode character database; neither is part of the repository. It is a
  parameter \<open>toLowerCase\<close> of the definitions below. What is used of it, where
  something is, is its action on ASCII strings: it maps the letters \<open>A\<close> to \<open>Z\<close>
  (codes \<open>0x41\<close> to \<open>0x5A\<close>) to \<open>a\<close> to \<open>z\<close> (codes \<open>0x61\<close> to \<open>0x7A\<close>) and
  leaves every other ASCII character as it is.
\<close>

definition isUpper :: "code_unit \<Rightarrow> bool" where
  "isUpper c \<longleftrightarrow> 0x41 \<le> c \<and> c \<le> 0x5A"

definition lowerUnit :: "code_unit \<Rightarrow> code_unit" where
  "lowerUnit c = (if isUpper c then c + 0x20 else c)"

definition isAscii :: "js_string \<Rightarrow> bool" where
  "isAscii s = list_all (\<lambda>c. c < 0x80) s"

definition lowersAscii :: "(js_string \<Rightarrow> js_string) \<Rightarrow> bool" where
  "lowersAscii toLowerCase \<longleftrightarrow> (\<forall>s. isAscii s \<longrightarrow> toLowerCase s = map lowerUnit s)"

text \<open>
  Two functions that lower ASCII as \<^verbatim>\<open>toLowerCase\<close> does: one leaves every other
  code unit as it is, the other also maps the Kelvin sign \<open>U+212A\<close> to \<open>k\<close>, as
  Unicode does.
\<close>

definition asciiLower :: "js_string \<Rightarrow> js_string" where
  "asciiLower s = map lowerUnit s"

definition kelvinLower :: "js_string \<Rightarrow> js_string" where
  "kelvinLower s = map (\<lambda>c. if c = 0x212A then 0x6B else lowerUnit c) s"

text \<open>
  \<^verbatim>\<open>s.includes(k)\<close>: the string \<open>k\<close> occurs in \<open>s\<close> as a contiguous substring, at
  the start of \<open>s\<close> or further on.
\<close>

fun startsWith :: "'a list \<Rightarrow> 'a list \<Rightarrow> bool" where
  "startsWith s [] = True"
| "startsWith [] (k # ks) = False"
| "startsWith (c # cs) (k # ks) = (c = k \<and> startsWith cs ks)"

fun js_includes :: "'a list \<Rightarrow> 'a list \<Rightarrow> bool" where
  "js_includes [] k = (k = [])"
| "js_includes (c # cs) k = (startsWith (c # cs) k \<or> js_includes cs k)"

text \<open>The condition of the \<^verbatim>\<open>if\<close> at line 52.\<close>

definition keyMatches ::
  "(js_string \<Rightarrow> js_string) \<Rightarrow> js_string \<Rightarrow> js_string \<Rightarrow> string \<Rightarrow> bool" where
  "keyMatches toLowerCase lowerCategory placeName key \<longleftrightarrow>
     js_includes lowerCategory (toLowerCase (js key))
     \<or> js_includes (toLowerCase placeName) (toLowerCase (js key))"

text \<open>
  The loop \<^verbatim>\<open>for (const key in categoryConfigs)\<close> with its \<^verbatim>\<open>break\<close>: the result is
  the key at which the loop was left, or \<open>None\<close> when it ran to its end.
\<close>

fun scanKeys ::
  "(js_string \<Rightarrow> js_string) \<Rightarrow> string list \<Rightarrow> js_string \<Rightarrow> js_string \<Rightarrow> string option"
  where
  "scanKeys toLowerCase [] lowerCategory placeName = None"
| "scanKeys toLowerCase (key # keys) lowerCategory placeName =
     (if keyMatches toLowerCase lowerCategory placeName key then Some key
      else scanKeys toLowerCase keys lowerCategory placeName)"

text \<open>
  The pair \<^verbatim>\<open>(matchedCategoryName, selectedCategoryConfig)\<close> after the loop. Both
  variables start at the entry \<^verbatim>\<open>'Generic'\<close>; \<^verbatim>\<open>categoryConfigs[key]\<close> is the lookup
  in the table.
\<close>

definition selectCategory ::
  "(js_string \<Rightarrow> js_string) \<Rightarrow> js_string \<Rightarrow> js_string \<Rightarrow> string \<times> categoryConfig" where
  "selectCategory toLowerCase category placeName =
     (let lowerCategory = toLowerCase category in
      case scanKeys toLowerCase (map fst categoryConfigs) lowerCategory placeName of
        None \<Rightarrow> (''Generic'', the (map_of categoryConfigs ''Generic''))
      | Some key \<Rightarrow> (key, the (map_of categoryConfigs key)))"

text \<open>
  What the specification calls a case-insensitive substring, in two forms. The
  first follows the words of its algorithm: after lowering both strings, the key
  lies between some prefix and some suffix of the text. The second does not
  mention \<^verbatim>\<open>toLowerCase\<close>: some window of the text has the length of the key and
  agrees with it position by position, up to the case of the letters \<open>A\<close> to \<open>Z\<close>.
\<close>

definition ciSubstring :: "(js_string \<Rightarrow> js_string) \<Rightarrow> string \<Rightarrow> js_string \<Rightarrow> bool" where
  "ciSubstring toLowerCase key s \<longleftrightarrow>
     (\<exists>p q. toLowerCase s = p @ toLowerCase (js key) @ q)"

definition sameLetter :: "code_unit \<Rightarrow> code_unit \<Rightarrow> bool" where
  "sameLetter a b \<longleftrightarrow> a = b \<or> (isUpper a \<and> b = a + 0x20) \<or> (isUpper b \<and> a = b + 0x20)"

definition ciOccurs :: "js_string \<Rightarrow> js_string \<Rightarrow> bool" where
  "ciOccurs k s \<longleftrightarrow> (\<exists>p m q. s = p @ m @ q \<and> list_all2 sameLetter m k)"

subsection \<open>Star-distribution path (\<^verbatim>\<open>src/unnamed/part_000\<close>)\<close>

text \<open>\<^verbatim>\<open>arr.reduce((sum, current) => sum + current, 0)\<close>.\<close>

definition sumArray :: "real list \<Rightarrow> real" where
  "sumArray arr = foldl (\<lambda>acc current. acc + current) 0 arr"

text \<open>
  The two loops \<^verbatim>\<open>for (let i = 0; i < 5; i++)\<close> are folds over the indices
  \<open>0, \<dots>, 4\<close>; both run only after the length of the array was found to be five,
  so every read \<^verbatim>\<open>revs[i]\<close> is in range.
\<close>

definition mean_stars :: "real list \<Rightarrow> real" where
  "mean_stars revs =
     (if length revs \<noteq> 5 then 0
      else let totalReviews = sumArray revs in
        if totalReviews = 0 then 0
        else let weightedSum =
                   foldl (\<lambda>weightedSum i. weightedSum + revs ! i * (5 - real i)) 0 [0..<5]
             in weightedSum / totalReviews)"

definition standard_dev_stars :: "real list \<Rightarrow> real \<Rightarrow> real" where
  "standard_dev_stars revs mu =
     (if length revs \<noteq> 5 then 0
      else let totalReviews = sumArray revs in
        if totalReviews \<le> 1 then 0
        else let sumSquaredDifferences =
                   foldl (\<lambda>sumSquaredDifferences i.
                            let starValue = 5 - real i in
                            sumSquaredDifferences + revs ! i * (starValue - mu) ^ 2) 0 [0..<5]
             in sqrt (sumSquaredDifferences / (totalReviews - 1)))"

text \<open>The object \<^verbatim>\<open>{ mu, se }\<close> is the pair of its two fields, in this order.\<close>

definition getMeanAndSE :: "real list \<Rightarrow> real \<times> real" where
  "getMeanAndSE rev_nums =
     (let mu = mean_stars rev_nums;
          standard_dev = standard_dev_stars rev_nums mu;
          totalReviews = sumArray rev_nums;
          se = (if totalReviews > 0 then standard_dev / sqrt totalReviews else 0)
      in (mu, se))"

text \<open>
  The array \<^verbatim>\<open>[lowerBound, upperBound]\<close> is a list of two elements. The parameter
  \<^verbatim>\<open>se\<close> of the source is written \<open>se'\<close>, the name \<open>se\<close> being taken by the
  standard error of the aggregate-count path.
\<close>

definition get_confidence_int :: "real \<Rightarrow> real \<Rightarrow> real \<Rightarrow> real list" where
  "get_confidence_int mu se' k =
     (let lowerBound = mu - se' * k;
          upperBound = mu + se' * k
      in [lowerBound, upperBound])"

text \<open>
  What the popup shows when the computation goes through (lines 43-63), with one
  field for each \<^verbatim>\<open>const\<close> of the handler that reaches the page.
\<close>

record estimate =
  meanStarRating :: real
  confidenceIntervalStars :: "real list"
  estimatedConfidencePercent :: real
  displayLowerBound :: real
  displayUpperBound :: real


subsection \<open>The statistical functions of the second variant (\<^verbatim>\<open>src/unnamed/part_001\<close>)\<close>

text \<open>
  Lines 124-190 of \<^verbatim>\<open>src/unnamed/part_001\<close>, translated on their own from that
  file.
\<close>

definition sumArray_part_001 :: "real list \<Rightarrow> real" where
  "sumArray_part_001 arr = foldl (\<lambda>acc current. acc + current) 0 arr"

definition mean_stars_part_001 :: "real list \<Rightarrow> real" where
  "mean_stars_part_001 revs =
     (if length revs \<noteq> 5 then 0
      else let totalReviews = sumArray_part_001 revs in
        if totalReviews = 0 then 0
        else let weightedSum =
                   foldl (\<lambda>weightedSum i. weightedSum + revs ! i * (5 - real i)) 0 [0..<5]
             in weightedSum / totalReviews)"

definition standard_dev_stars_part_001 :: "real list \<Rightarrow> real \<Rightarrow> real" where
  "standard_dev_stars_part_001 revs mu =
     (if length revs \<noteq> 5 then 0
      else let totalReviews = sumArray_part_001 revs in
        if totalReviews \<le> 1 then 0
        else let sumSquaredDifferences =
                   foldl (\<lambda>sumSquaredDifferences i.
                            let starValue = 5 - real i in
                            sumSquaredDifferences + revs ! i * (starValue - mu) ^ 2) 0 [0..<5]
             in sqrt (sumSquaredDifferences / (totalReviews - 1)))"

definition getMeanAndSE_part_001 :: "real list \<Rightarrow> real \<times> real" where
  "getMeanAndSE_part_001 rev_nums =
     (let mu = mean_stars_part_001 rev_nums;
          standard_dev = standard_dev_stars_part_001 rev_nums mu;
          totalReviews = sumArray_part_001 rev_nums;
          se = (if totalReviews > 0 then standard_dev / sqrt totalReviews else 0)
      in (mu, se))"

definition get_confidence_int_part_001 :: "real \<Rightarrow> real \<Rightarrow> real \<Rightarrow> real list" where
  "get_confidence_int_part_001 mu se' k =
     (let lowerBound = mu - se' * k;
          upperBound = mu + se' * k
      in [lowerBound, upperBound])"

subsection \<open>The same code in double precision\<close>

text \<open>
  A JavaScript number is an IEEE 754 double, and every arithmetic operation of
  the code returns the double nearest to its exact result, a tie going to the
  double whose last bit is zero. \<open>fl\<close> is this rounding: to 53 significant bits,
  with no bound on the exponent, so that it agrees with the hardware wherever
  the code neither overflows nor underflows. \<open>rne\<close> rounds a real to the nearest
  integer, a tie to the even one, and \<open>ulp x\<close> is the distance between the
  doubles around \<open>x\<close>.
\<close>

definition rne :: "real \<Rightarrow> int" where
  "rne q =
     (let f = \<lfloor>q\<rfloor>; d = q - of_int f in
      if d < 1 / 2 then f
      else if 1 / 2 < d then f + 1
      else if even f then f else f + 1)"

definition ulp :: "real \<Rightarrow> real" where
  "ulp x = 2 powr (of_int (\<lfloor>log 2 \<bar>x\<bar>\<rfloor> - 52))"

definition fl :: "real \<Rightarrow> real" where
  "fl x = (if x = 0 then 0 else of_int (rne (x / ulp x)) * ulp x)"

text \<open>
  A decimal literal of the source denotes the double nearest to it: the table as
  the engine holds it.
\<close>

definition toDouble :: "categoryConfig \<Rightarrow> categoryConfig" where
  "toDouble cfg =
     \<lparr>maxReviews = fl (maxReviews cfg), weight = fl (weight cfg),
      baseUncertaintyFactor = fl (baseUncertaintyFactor cfg)\<rparr>"

text \<open>
  Lines 61-70 of \<^verbatim>\<open>src/confInt.js\<close>, each operation rounded. \<^verbatim>\<open>Math.min\<close> returns
  one of its arguments, and \<^verbatim>\<open>Math.sqrt\<close> is taken to be correctly rounded, as
  IEEE 754 requires of the square root.
\<close>

definition mu_confidence_score_double :: "real \<Rightarrow> categoryConfig \<Rightarrow> real" where
  "mu_confidence_score_double reviewsCount cfg =
     fl (fl (fl (normalizedReviews reviewsCount cfg / maxReviews cfg) * weight cfg) * 100)"



text \<open>
  Lines 137-204 and 43-63 of \<^verbatim>\<open>src/unnamed/part_000\<close>, each operation rounded.
  The star value \<^verbatim>\<open>5 - i\<close> is a small integer and exact; \<^verbatim>\<open>Math.pow(x, 2)\<close> is
  taken to be the rounded square.
\<close>

definition sumArray_double :: "real list \<Rightarrow> real" where
  "sumArray_double arr = foldl (\<lambda>acc current. fl (acc + current)) 0 arr"

definition mean_stars_double :: "real list \<Rightarrow> real" where
  "mean_stars_double revs =
     (if length revs \<noteq> 5 then 0
      else let totalReviews = sumArray_double revs in
        if totalReviews = 0 then 0
        else let weightedSum =
                   foldl (\<lambda>weightedSum i. fl (weightedSum + fl (revs ! i * (5 - real i))))
                     0 [0..<5]
             in fl (weightedSum / totalReviews))"

definition standard_dev_stars_double :: "real list \<Rightarrow> real \<Rightarrow> real" where
  "standard_dev_stars_double revs mu =
     (if length revs \<noteq> 5 then 0
      else let totalReviews = sumArray_double revs in
        if totalReviews \<le> 1 then 0
        else let sumSquaredDifferences =
                   foldl (\<lambda>sumSquaredDifferences i.
                            let starValue = 5 - real i in
                            fl (sumSquaredDifferences
                                + fl (revs ! i * fl ((fl (starValue - mu)) ^ 2)))) 0 [0..<5]
             in fl (sqrt (fl (sumSquaredDifferences / fl (totalReviews - 1)))))"

definition getMeanAndSE_double :: "real list \<Rightarrow> real \<times> real" where
  "getMeanAndSE_double rev_nums =
     (let mu = mean_stars_double rev_nums;
          standard_dev = standard_dev_stars_double rev_nums mu;
          totalReviews = sumArray_double rev_nums;
          se = (if totalReviews > 0 then fl (standard_dev / fl (sqrt totalReviews)) else 0)
      in (mu, se))"

definition get_confidence_int_double :: "real \<Rightarrow> real \<Rightarrow> real \<Rightarrow> real list" where
  "get_confidence_int_double mu se' k =
     (let lowerBound = fl (mu - fl (se' * k));
          upperBound = fl (mu + fl (se' * k))
      in [lowerBound, upperBound])"

definition starEstimate_double :: "real list \<Rightarrow> estimate" where
  "starEstimate_double starCounts =
     (let (meanStarRating, seStarRating) = getMeanAndSE_double starCounts;
          k_z_score = fl (196 / 100);
          confidenceIntervalStars =
            get_confidence_int_double meanStarRating seStarRating k_z_score;
          estimatedConfidencePercent = fl (fl (fl (meanStarRating - 1) / 4) * 100);
          lowerBoundPercent = fl (fl (fl (confidenceIntervalStars ! 0 - 1) / 4) * 100);
          upperBoundPercent = fl (fl (fl (confidenceIntervalStars ! 1 - 1) / 4) * 100);
          displayLowerBound = max 0 lowerBoundPercent;
          displayUpperBound = min 100 upperBoundPercent
      in \<lparr>meanStarRating = meanStarRating,
          confidenceIntervalStars = confidenceIntervalStars,
          estimatedConfidencePercent = estimatedConfidencePercent,
          displayLowerBound = displayLowerBound,
          displayUpperBound = displayUpperBound\<rparr>)"

subsection \<open>The click handler of the star-distribution path\<close>

text \<open>
  The data the content script hands to the click handler. The place name and the
  star counts are options, \<open>None\<close> standing for \<^verbatim>\<open>null\<close> and for \<^verbatim>\<open>undefined\<close>, which
  the handler does not tell apart for these two fields. For the review count it
  does: \<^verbatim>\<open>undefined !== null\<close> holds. \<^verbatim>\<open>category\<close> always is a string.
\<close>

datatype js_number = Undefined | Null | Number real

record extractedData =
  placeName :: "string option"
  reviewsCount :: js_number
  category :: string
  starCounts :: "real list option"

text \<open>
  The outcomes of the click handler (lines 25-88), one for each message it can
  write to the page: the computed results, the message "Not enough detailed
  review data", the message "Could not identify a specific place name", the
  message "Could not extract sufficient data", and the message "An unexpected
  error occurred" of the \<^verbatim>\<open>catch\<close> block.
\<close>

datatype js_error = TypeError

datatype popupResult =
    Results estimate
  | NotEnoughReviewData
  | NoPlaceName
  | NoSufficientData
  | UnexpectedError js_error

text \<open>A string is truthy when it is neither \<^verbatim>\<open>null\<close> nor empty.\<close>

definition truthy :: "string option \<Rightarrow> bool" where
  "truthy s = (case s of None \<Rightarrow> False | Some t \<Rightarrow> t \<noteq> [])"

text \<open>
  The call \<^verbatim>\<open>sumArray(starCounts)\<close> of line 29, on a value that may be absent:
  \<^verbatim>\<open>arr.reduce\<close> on \<^verbatim>\<open>undefined\<close> or \<^verbatim>\<open>null\<close> throws a \<^verbatim>\<open>TypeError\<close>.
\<close>

definition sumArray_call :: "real list option \<Rightarrow> js_error + real" where
  "sumArray_call arr =
     (case arr of None \<Rightarrow> Inl TypeError | Some xs \<Rightarrow> Inr (sumArray_double xs))"

text \<open>
  The two templates that the handler fills in (lines 31-38 and 67-77) both
  evaluate \<^verbatim>\<open>reviewsCount.toLocaleString()\<close>, which throws a \<^verbatim>\<open>TypeError\<close> when
  the review count is \<^verbatim>\<open>undefined\<close>.
\<close>

definition fillTemplate :: "js_number \<Rightarrow> popupResult \<Rightarrow> popupResult" where
  "fillTemplate count page =
     (case count of Number c \<Rightarrow> page | _ \<Rightarrow> UnexpectedError TypeError)"

text \<open>
  The click handler from line 25 on. The statements run in the order of the
  source: the sum of line 29 first, then the test of line 30, whose three
  disjuncts are \<^verbatim>\<open>totalReviewsCount === 0\<close>, \<^verbatim>\<open>!starCounts\<close> and
  \<^verbatim>\<open>starCounts.length !== 5\<close>. An exception thrown on the way is caught by the
  \<^verbatim>\<open>catch\<close> block of line 85.
\<close>

definition checkConfidence :: "extractedData option \<Rightarrow> popupResult" where
  "checkConfidence extracted =
     (case extracted of
        None \<Rightarrow> NoSufficientData
      | Some d \<Rightarrow>
          if truthy (placeName d) \<and> reviewsCount d \<noteq> Null then
            (case sumArray_call (starCounts d) of
               Inl e \<Rightarrow> UnexpectedError e
             | Inr totalReviewsCount \<Rightarrow>
                 (case starCounts d of
                    None \<Rightarrow> fillTemplate (reviewsCount d) NotEnoughReviewData
                  | Some arr \<Rightarrow>
                      if totalReviewsCount = 0 \<or> False \<or> length arr \<noteq> 5
                      then fillTemplate (reviewsCount d) NotEnoughReviewData
                      else fillTemplate (reviewsCount d) (Results (starEstimate_double arr))))
          else if \<not> truthy (placeName d) then NoPlaceName
          else NoSufficientData)"

section \<open>Properties of the aggregate-count path\<close>

lemma mu_confidence_score_nonneg:
  assumes "0 \<le> c" and "0 < maxReviews cfg" and "0 \<le> weight cfg"
  shows "0 \<le> mu_confidence_score c cfg"
  using assms by (simp add: mu_confidence_score_def normalizedReviews_def)

lemma normalized_ratio_le_one:
  assumes "0 < maxReviews cfg"
  shows "normalizedReviews c cfg / maxReviews cfg \<le> 1"
  using assms by (simp add: normalizedReviews_def)

lemma mu_confidence_score_le_weight:
  assumes "0 < maxReviews cfg" and "0 \<le> weight cfg"
  shows "mu_confidence_score c cfg \<le> weight cfg * 100"
proof -
  have r: "normalizedReviews c cfg / maxReviews cfg \<le> 1"
    using assms by (intro normalized_ratio_le_one)
  have "normalizedReviews c cfg / maxReviews cfg * (weight cfg * 100)
          \<le> 1 * (weight cfg * 100)"
    using assms r by (intro mult_right_mono) simp_all
  then show ?thesis
    unfolding mu_confidence_score_def by (simp only: mult.assoc mult_1)
qed

lemma se_pos:
  assumes "0 \<le> c" and "0 < baseUncertaintyFactor cfg"
  shows "0 < se c cfg"
  using assms by (simp add: se_def baseErrorMagnitude_def effectiveSampleSize_def)

text \<open>
  Claim C1. On the aggregate-count path, for every integer review count \<open>n \<ge> 0\<close> and
  every profile with \<open>maxReviews > 0\<close>, weight in \<open>(0, 1]\<close> and uncertainty factor in
  \<open>(0, 1]\<close>, the computed triple satisfies \<open>0 \<le> lower \<le> point \<le> upper \<le> 100\<close>, where
  the point is \<open>min(n, maxReviews) / maxReviews * weight * 100\<close>, the standard error is
  \<open>20 * baseUncertaintyFactor / sqrt (n + 1)\<close>, the lower bound is
  \<open>max(0, point - 1.96 * se)\<close> and the upper bound is \<open>min(100, point + 1.96 * se)\<close>.
\<close>

theorem aggregate_bounds:
  fixes n :: nat
  assumes "validConfig cfg"
  shows "mu_confidence_score (real n) cfg
           = (min (real n) (maxReviews cfg) / maxReviews cfg) * weight cfg * 100
       \<and> se (real n) cfg = (20 * baseUncertaintyFactor cfg) / sqrt (real n + 1)
       \<and> lowerBound (real n) cfg
           = max 0 (mu_confidence_score (real n) cfg - 1.96 * se (real n) cfg)
       \<and> upperBound (real n) cfg
           = min 100 (mu_confidence_score (real n) cfg + 1.96 * se (real n) cfg)
       \<and> 0 \<le> lowerBound (real n) cfg
       \<and> lowerBound (real n) cfg \<le> mu_confidence_score (real n) cfg
       \<and> mu_confidence_score (real n) cfg \<le> upperBound (real n) cfg
       \<and> upperBound (real n) cfg \<le> 100"
proof -
  let ?mu = "mu_confidence_score (real n) cfg"
  let ?se = "se (real n) cfg"
  from assms have cfg: "0 < maxReviews cfg" "0 < weight cfg" "weight cfg \<le> 1"
    "0 < baseUncertaintyFactor cfg"
    by (simp_all add: validConfig_def)
  have mu0: "0 \<le> ?mu"
    using cfg by (intro mu_confidence_score_nonneg) simp_all
  have "?mu \<le> weight cfg * 100"
    using cfg by (intro mu_confidence_score_le_weight) simp_all
  with cfg have mu100: "?mu \<le> 100" by simp
  have se0: "0 < ?se"
    using cfg by (intro se_pos) simp_all
  have f1: "?mu = (min (real n) (maxReviews cfg) / maxReviews cfg) * weight cfg * 100"
    by (simp add: mu_confidence_score_def normalizedReviews_def)
  have f2: "?se = (20 * baseUncertaintyFactor cfg) / sqrt (real n + 1)"
    by (simp add: se_def baseErrorMagnitude_def effectiveSampleSize_def)
  have f3: "lowerBound (real n) cfg = max 0 (?mu - 1.96 * ?se)"
    by (simp add: lowerBound_def k_z_score_def mult.commute)
  have f4: "upperBound (real n) cfg = min 100 (?mu + 1.96 * ?se)"
    by (simp add: upperBound_def k_z_score_def mult.commute)
  have b1: "0 \<le> lowerBound (real n) cfg"
    by (simp add: lowerBound_def)
  have b2: "lowerBound (real n) cfg \<le> ?mu"
    using mu0 se0 by (simp add: lowerBound_def k_z_score_def)
  have b3: "?mu \<le> upperBound (real n) cfg"
    using mu100 se0 by (simp add: upperBound_def k_z_score_def)
  have b4: "upperBound (real n) cfg \<le> 100"
    by (simp add: upperBound_def)
  from f1 f2 f3 f4 b1 b2 b3 b4 show ?thesis by blast
qed

theorem aggregate_bounds_witness:
  "validConfig \<lparr>maxReviews = 1000, weight = 55 / 100, baseUncertaintyFactor = 45 / 100\<rparr>
   \<and> 0 \<le> lowerBound (real 3) \<lparr>maxReviews = 1000, weight = 55 / 100, baseUncertaintyFactor = 45 / 100\<rparr>
   \<and> lowerBound (real 3) \<lparr>maxReviews = 1000, weight = 55 / 100, baseUncertaintyFactor = 45 / 100\<rparr>
       \<le> mu_confidence_score (real 3) \<lparr>maxReviews = 1000, weight = 55 / 100, baseUncertaintyFactor = 45 / 100\<rparr>
   \<and> mu_confidence_score (real 3) \<lparr>maxReviews = 1000, weight = 55 / 100, baseUncertaintyFactor = 45 / 100\<rparr>
       \<le> upperBound (real 3) \<lparr>maxReviews = 1000, weight = 55 / 100, baseUncertaintyFactor = 45 / 100\<rparr>
   \<and> upperBound (real 3) \<lparr>maxReviews = 1000, weight = 55 / 100, baseUncertaintyFactor = 45 / 100\<rparr> \<le> 100"
proof -
  have v: "validConfig \<lparr>maxReviews = 1000, weight = 55 / 100, baseUncertaintyFactor = 45 / 100\<rparr>"
    by (simp add: validConfig_def)
  from aggregate_bounds [OF v, of 3] v show ?thesis by blast
qed

section \<open>Properties of the star-distribution path\<close>

lemma sumArray_sum_list: "sumArray arr = sum_list arr"
proof -
  have "foldl (\<lambda>acc current. acc + current) a arr = a + sum_list arr" for a :: real
    by (induction arr arbitrary: a) simp_all
  then show ?thesis by (simp add: sumArray_def)
qed

lemma sumArray_map_real: "sumArray (map real counts) = real (sum_list counts)"
  by (induction counts) (simp_all add: sumArray_sum_list)

lemma upt5: "[0..<5] = [0, 1, 2, 3, 4]"
  by (simp add: upt_rec)

lemma sum_0_4: "(\<Sum>i = 0..4. f i) = f 0 + f 1 + f 2 + f 3 + f (4::nat)" for f :: "nat \<Rightarrow> real"
proof -
  have "{0..4::nat} = {0, 1, 2, 3, 4}" by auto
  then show ?thesis by simp
qed

lemma length5E:
  assumes "length xs = 5"
  obtains a b c d e where "xs = [a, b, c, d, e]"
proof -
  from assms obtain a b c d e where "xs = [a, b, c, d, e]"
    by (auto simp: length_Suc_conv eval_nat_numeral)
  then show thesis by (rule that)
qed

lemma mean_stars_five:
  "mean_stars [a, b, c, d, e] =
     (if a + b + c + d + e = 0 then 0
      else (5 * a + 4 * b + 3 * c + 2 * d + e) / (a + b + c + d + e))"
  by (simp add: mean_stars_def sumArray_def upt5 Let_def algebra_simps)

lemma standard_dev_stars_five:
  "standard_dev_stars [a, b, c, d, e] mu =
     (if a + b + c + d + e \<le> 1 then 0
      else sqrt ((a * (5 - mu)\<^sup>2 + b * (4 - mu)\<^sup>2 + c * (3 - mu)\<^sup>2
                   + d * (2 - mu)\<^sup>2 + e * (1 - mu)\<^sup>2)
                 / (a + b + c + d + e - 1)))"
  by (simp add: standard_dev_stars_def sumArray_def upt5 Let_def)

lemma getMeanAndSE_fields:
  "fst (getMeanAndSE revs) = mean_stars revs"
  "snd (getMeanAndSE revs) =
     (if sumArray revs > 0 then standard_dev_stars revs (mean_stars revs) / sqrt (sumArray revs)
      else 0)"
  by (simp_all add: getMeanAndSE_def Let_def)





text \<open>
  Claim C3. For every list of non-negative integer star counts, with
  \<open>total\<close> the sum of the list: when the list has five elements and \<open>total > 0\<close>,
  \<^verbatim>\<open>mean_stars\<close> returns the sum over \<open>i = 0, \<dots>, 4\<close> of \<open>starCounts[i] * (5 - i)\<close>
  divided by \<open>total\<close>; when \<open>total = 0\<close> or the length is not five it returns
  the sentinel \<open>0\<close>.
\<close>

theorem mean_stars_definition:
  fixes counts :: "nat list"
  shows "sumArray (map real counts) = real (sum_list counts)
       \<and> mean_stars (map real counts) =
          (if length counts = 5 \<and> 0 < sum_list counts
           then (\<Sum>i = 0..4. real (counts ! i) * (5 - real i)) / real (sum_list counts)
           else 0)"
proof (cases "length counts = 5")
  case True
  then obtain a b c d e where xs: "counts = [a, b, c, d, e]"
    by (rule length5E)
  have t: "real a + real b + real c + real d + real e = 0 \<longleftrightarrow> \<not> 0 < a + b + c + d + e"
    by linarith
  have "mean_stars (map real counts) =
          (if length counts = 5 \<and> 0 < sum_list counts
           then (\<Sum>i = 0..4. real (counts ! i) * (5 - real i)) / real (sum_list counts)
           else 0)"
    using t by (simp add: xs mean_stars_five sum_0_4 algebra_simps)
  then show ?thesis
    by (simp only: sumArray_map_real simp_thms)
next
  case False
  then have "mean_stars (map real counts) = 0"
    by (simp add: mean_stars_def)
  with False show ?thesis
    by (simp only: sumArray_map_real simp_thms if_False)
qed

theorem mean_stars_definition_witness:
  "mean_stars (map real [5, 5, 0, 0, 0]) = 9 / 2
   \<and> mean_stars (map real [0, 0, 0, 0, 0]) = 0
   \<and> mean_stars (map real [1, 2, 3]) = 0"
  using mean_stars_definition [of "[5, 5, 0, 0, 0]"]
    mean_stars_definition [of "[0, 0, 0, 0, 0]"]
    mean_stars_definition [of "[1, 2, 3]"]
  by (simp add: sum_0_4)

text \<open>
  Claim C4. For every list of five non-negative integer star counts, with
  \<open>total\<close> the sum of the list: \<^verbatim>\<open>standard_dev_stars\<close> returns the square root of
  the sum over \<open>i = 0, \<dots>, 4\<close> of \<open>starCounts[i] * ((5 - i) - mean)\<^sup>2\<close> divided by
  \<open>total - 1\<close> when \<open>total > 1\<close>, and \<open>0\<close> when \<open>total \<le> 1\<close>; \<^verbatim>\<open>getMeanAndSE\<close>
  returns the mean of \<^verbatim>\<open>mean_stars\<close> and the standard error
  \<open>stdev / sqrt total\<close> when \<open>total > 0\<close>, and \<open>0\<close> otherwise.
\<close>

theorem stdev_and_se_definition:
  fixes counts :: "nat list"
  assumes "length counts = 5"
  shows "standard_dev_stars (map real counts) mu =
          (if 1 < sum_list counts
           then sqrt ((\<Sum>i = 0..4. real (counts ! i) * ((5 - real i) - mu)\<^sup>2)
                      / (real (sum_list counts) - 1))
           else 0)
       \<and> fst (getMeanAndSE (map real counts)) = mean_stars (map real counts)
       \<and> snd (getMeanAndSE (map real counts)) =
          (if 0 < sum_list counts
           then standard_dev_stars (map real counts) (mean_stars (map real counts))
                / sqrt (real (sum_list counts))
           else 0)"
proof -
  from assms obtain a b c d e where xs: "counts = [a, b, c, d, e]"
    by (rule length5E)
  have t: "real a + real b + real c + real d + real e \<le> 1 \<longleftrightarrow> \<not> 1 < a + b + c + d + e"
    by linarith
  have sd: "standard_dev_stars (map real counts) mu =
          (if 1 < sum_list counts
           then sqrt ((\<Sum>i = 0..4. real (counts ! i) * ((5 - real i) - mu)\<^sup>2)
                      / (real (sum_list counts) - 1))
           else 0)"
    using t by (simp add: xs standard_dev_stars_five sum_0_4)
  have se: "snd (getMeanAndSE (map real counts)) =
          (if 0 < sum_list counts
           then standard_dev_stars (map real counts) (mean_stars (map real counts))
                / sqrt (real (sum_list counts))
           else 0)"
    by (simp add: getMeanAndSE_fields(2) sumArray_map_real)
  from sd se show ?thesis by (simp add: getMeanAndSE_fields(1))
qed


theorem stdev_and_se_definition_witness:
  "length [10, 0, 0, 0, 0 :: nat] = 5
   \<and> standard_dev_stars (map real [10, 0, 0, 0, 0]) 5 = 0
   \<and> fst (getMeanAndSE (map real [10, 0, 0, 0, 0])) = 5
   \<and> snd (getMeanAndSE (map real [10, 0, 0, 0, 0])) = 0"
proof -
  have h: "length [10, 0, 0, 0, 0 :: nat] = 5" by simp
  have m: "mean_stars (map real [10, 0, 0, 0, 0]) = 5"
    by (simp add: mean_stars_five)
  from stdev_and_se_definition [OF h, of 5] h show ?thesis
    unfolding m by (simp add: sum_0_4)
qed



text \<open>
  Claim C10. The statistical functions that the two star-distribution variants
  both define (\<^verbatim>\<open>sumArray\<close>, \<^verbatim>\<open>mean_stars\<close>, \<^verbatim>\<open>standard_dev_stars\<close>,
  \<^verbatim>\<open>getMeanAndSE\<close> and \<^verbatim>\<open>get_confidence_int\<close>) compute the same result on
  every input: the functions of \<^verbatim>\<open>src/unnamed/part_001\<close> are equal to those of
  \<^verbatim>\<open>src/unnamed/part_000\<close>.
\<close>

theorem variant_equivalence:
  "sumArray_part_001 = sumArray
   \<and> mean_stars_part_001 = mean_stars
   \<and> standard_dev_stars_part_001 = standard_dev_stars
   \<and> getMeanAndSE_part_001 = getMeanAndSE
   \<and> get_confidence_int_part_001 = get_confidence_int"
proof -
  have a: "sumArray_part_001 = sumArray"
    by (rule ext) (simp add: sumArray_part_001_def sumArray_def)
  have b: "mean_stars_part_001 = mean_stars"
    by (rule ext) (simp add: mean_stars_part_001_def mean_stars_def a)
  have c: "standard_dev_stars_part_001 = standard_dev_stars"
    by (intro ext) (simp add: standard_dev_stars_part_001_def standard_dev_stars_def a)
  have d: "getMeanAndSE_part_001 = getMeanAndSE"
    by (rule ext) (simp add: getMeanAndSE_part_001_def getMeanAndSE_def a b c)
  have e: "get_confidence_int_part_001 = get_confidence_int"
    by (intro ext) (simp add: get_confidence_int_part_001_def get_confidence_int_def)
  from a b c d e show ?thesis by blast
qed

section \<open>Properties of the click handler\<close>

lemma checkConfidence_NotEnough:
  assumes "truthy (placeName d)" and "reviewsCount d = Number c"
    and "starCounts d = Some arr" and "length arr \<noteq> 5 \<or> sumArray_double arr = 0"
  shows "checkConfidence (Some d) = NotEnoughReviewData"
  using assms by (auto simp: checkConfidence_def sumArray_call_def fillTemplate_def)

text \<open>
  Claim C6. For star counts that are absent, of a length other than five, or that
  sum to zero, the star-distribution path should report the outcome "not enough
  data" and never raise an error. For a wrong length and for a zero sum the
  handler does so (\<open>checkConfidence_NotEnough\<close>). For absent star counts it does
  not: line 29 calls \<^verbatim>\<open>sumArray(starCounts)\<close> before line 30 tests
  \<^verbatim>\<open>!starCounts\<close>, the call throws a \<^verbatim>\<open>TypeError\<close>, and the handler ends in its
  \<^verbatim>\<open>catch\<close> block with the message "An unexpected error occurred".
\<close>

theorem checkConfidence_absent_starCounts:
  "checkConfidence (Some \<lparr>placeName = Some ''Blue Cafe'', reviewsCount = Number 12,
       category = ''Cafe'', starCounts = None\<rparr>) = UnexpectedError TypeError"
  by (simp add: checkConfidence_def truthy_def sumArray_call_def)

section \<open>Properties of the category resolver\<close>

lemma lowerUnit_eq_iff: "lowerUnit a = lowerUnit b \<longleftrightarrow> sameLetter a b"
  unfolding lowerUnit_def sameLetter_def isUpper_def
  by (auto; unat_arith)

lemma startsWith_iff: "startsWith s k \<longleftrightarrow> (\<exists>q. s = k @ q)"
  by (induction s k rule: startsWith.induct) auto

lemma js_includes_iff: "js_includes s k \<longleftrightarrow> (\<exists>p q. s = p @ k @ q)"
proof (induction s)
  case Nil
  then show ?case by auto
next
  case (Cons c cs)
  have "(\<exists>p q. c # cs = p @ k @ q) \<longleftrightarrow> (\<exists>q. c # cs = k @ q) \<or> (\<exists>p q. cs = p @ k @ q)"
  proof
    assume "\<exists>p q. c # cs = p @ k @ q"
    then obtain p q where pq: "c # cs = p @ k @ q" by blast
    show "(\<exists>q. c # cs = k @ q) \<or> (\<exists>p q. cs = p @ k @ q)"
    proof (cases p)
      case Nil
      with pq show ?thesis by auto
    next
      case (Cons a p')
      with pq have "cs = p' @ k @ q" by simp
      then show ?thesis by blast
    qed
  next
    assume "(\<exists>q. c # cs = k @ q) \<or> (\<exists>p q. cs = p @ k @ q)"
    then show "\<exists>p q. c # cs = p @ k @ q"
    proof
      assume "\<exists>q. c # cs = k @ q"
      then obtain q where "c # cs = [] @ k @ q" by auto
      then show ?thesis by blast
    next
      assume "\<exists>p q. cs = p @ k @ q"
      then obtain p q where "c # cs = (c # p) @ k @ q" by auto
      then show ?thesis by blast
    qed
  qed
  with Cons show ?case
    by (simp only: js_includes.simps startsWith_iff)
qed

lemma keyMatches_iff:
  "keyMatches lower (lower cat) name key
     \<longleftrightarrow> ciSubstring lower key cat \<or> ciSubstring lower key name"
  by (simp add: keyMatches_def ciSubstring_def js_includes_iff)

lemma ciSubstring_iff:
  "ciSubstring lower key s \<longleftrightarrow> js_includes (lower s) (lower (js key))"
  by (simp add: ciSubstring_def js_includes_iff)

lemma map_eq_iff_all2: "map f m = map f k \<longleftrightarrow> list_all2 (\<lambda>a b. f a = f b) m k"
proof -
  have "map f m = map f k \<longleftrightarrow> list_all2 (=) (map f m) (map f k)"
    by (simp add: list.rel_eq)
  also have "\<dots> \<longleftrightarrow> list_all2 (\<lambda>a b. f a = f b) m k"
    by (simp add: list_all2_map1 list_all2_map2)
  finally show ?thesis .
qed

lemma map_includes_iff:
  "(\<exists>p q. map f s = p @ map f k @ q)
     \<longleftrightarrow> (\<exists>p m q. s = p @ m @ q \<and> list_all2 (\<lambda>a b. f a = f b) m k)"
proof
  assume "\<exists>p q. map f s = p @ map f k @ q"
  then obtain p q where "map f s = p @ (map f k @ q)" by auto
  then obtain p' r where s: "s = p' @ r" and "map f k @ q = map f r"
    unfolding map_eq_append_conv by blast
  then have "map f r = map f k @ q" by simp
  then obtain m q' where "r = m @ q'" and "map f k = map f m"
    unfolding map_eq_append_conv by blast
  then have "r = m @ q'" and "map f m = map f k" by simp_all
  with s have "s = p' @ m @ q' \<and> list_all2 (\<lambda>a b. f a = f b) m k"
    by (simp add: map_eq_iff_all2)
  then show "\<exists>p m q. s = p @ m @ q \<and> list_all2 (\<lambda>a b. f a = f b) m k"
    by blast
next
  assume "\<exists>p m q. s = p @ m @ q \<and> list_all2 (\<lambda>a b. f a = f b) m k"
  then obtain p m q where "s = p @ m @ q" and "map f m = map f k"
    by (auto simp: map_eq_iff_all2)
  then have "map f s = map f p @ map f k @ map f q" by simp
  then show "\<exists>p q. map f s = p @ map f k @ q" by blast
qed

lemma ciSubstring_ascii:
  assumes "lowersAscii lower" and "isAscii s" and "isAscii (js key)"
  shows "ciSubstring lower key s \<longleftrightarrow> ciOccurs (js key) s"
proof -
  from assms have "lower s = map lowerUnit s" and "lower (js key) = map lowerUnit (js key)"
    by (simp_all add: lowersAscii_def)
  then have "ciSubstring lower key s
      \<longleftrightarrow> (\<exists>p q. map lowerUnit s = p @ map lowerUnit (js key) @ q)"
    by (simp add: ciSubstring_def)
  also have "\<dots> \<longleftrightarrow> (\<exists>p m q. s = p @ m @ q
      \<and> list_all2 (\<lambda>a b. lowerUnit a = lowerUnit b) m (js key))"
    by (rule map_includes_iff)
  finally show ?thesis
    by (simp add: ciOccurs_def lowerUnit_eq_iff [abs_def])
qed

lemma scanKeys_None:
  assumes "\<forall>k\<in>set keys. \<not> keyMatches lower lc name k"
  shows "scanKeys lower keys lc name = None"
  using assms by (induction keys) simp_all

lemma scanKeys_first:
  assumes "\<forall>k\<in>set pre. \<not> keyMatches lower lc name k" and "keyMatches lower lc name key"
  shows "scanKeys lower (pre @ key # post) lc name = Some key"
  using assms by (induction pre) simp_all

lemma scanKeys_Some_mem:
  assumes "scanKeys lower keys lc name = Some key"
  shows "key \<in> set keys"
  using assms by (induction keys) (auto split: if_splits)

lemma categoryKeys:
  "map fst categoryConfigs =
     [''Restaurant'', ''Cafe'', ''Store'', ''Park'', ''Hotel'', ''Museum'', ''Bank'',
      ''Hospital'', ''School'', ''Generic'']"
  by (simp add: categoryConfigs_def)

lemma categoryKeys_ascii:
  assumes "key \<in> set (map fst categoryConfigs)"
  shows "isAscii (js key)"
  using assms unfolding categoryKeys by (auto simp: isAscii_def js_def)

lemma lookup_Generic:
  "map_of categoryConfigs ''Generic''
     = Some \<lparr>maxReviews = 1000, weight = 55 / 100, baseUncertaintyFactor = 45 / 100\<rparr>"
  by (simp add: categoryConfigs_def)

lemma lookup_Bank:
  "map_of categoryConfigs ''Bank''
     = Some \<lparr>maxReviews = 300, weight = 30 / 100, baseUncertaintyFactor = 70 / 100\<rparr>"
  by (simp add: categoryConfigs_def)

lemma selectCategory_lookup:
  "map_of categoryConfigs (fst (selectCategory lower cat name))
     = Some (snd (selectCategory lower cat name))"
proof (cases "scanKeys lower (map fst categoryConfigs) (lower cat) name")
  case None
  then show ?thesis
    by (simp add: selectCategory_def lookup_Generic)
next
  case (Some key)
  then have "key \<in> set (map fst categoryConfigs)"
    by (rule scanKeys_Some_mem)
  then have "map_of categoryConfigs key \<noteq> None"
    by (simp add: map_of_eq_None_iff)
  with Some show ?thesis
    by (auto simp: selectCategory_def)
qed

lemma lowersAscii_asciiLower: "lowersAscii asciiLower"
  by (simp add: lowersAscii_def asciiLower_def)

lemma lowersAscii_kelvinLower: "lowersAscii kelvinLower"
proof -
  have "map (\<lambda>c. if c = 0x212A then 0x6B else lowerUnit c) s = map lowerUnit s"
    if "isAscii s" for s
    using that by (induction s) (auto simp: isAscii_def)
  then show ?thesis
    by (simp add: lowersAscii_def kelvinLower_def)
qed

text \<open>
  Claim C7. For every category string and every place-name string, the resolver
  scans the fixed list of category keys in its fixed order and returns the first
  key that is a case-insensitive substring of the category string or of the
  place name, together with the profile of that key; when no key matches it
  returns the key \<open>Generic\<close> with the Generic profile. The resolution always
  succeeds: the returned key is a key of the table and the returned profile is
  the entry of the table under that key. This holds whatever \<^verbatim>\<open>toLowerCase\<close>
  does; and since \<^verbatim>\<open>toLowerCase\<close> lowers the letters \<open>A\<close> to \<open>Z\<close> of an ASCII
  string and nothing else, on an ASCII text a key matches exactly when some
  window of the text spells the key up to the case of its letters.
\<close>

theorem category_resolution:
  "map fst categoryConfigs =
     [''Restaurant'', ''Cafe'', ''Store'', ''Park'', ''Hotel'', ''Museum'', ''Bank'',
      ''Hospital'', ''School'', ''Generic'']
   \<and> (map fst categoryConfigs = pre @ key # post
        \<and> (\<forall>k\<in>set pre. \<not> (ciSubstring lower k cat \<or> ciSubstring lower k name))
        \<and> (ciSubstring lower key cat \<or> ciSubstring lower key name)
      \<longrightarrow> fst (selectCategory lower cat name) = key
          \<and> map_of categoryConfigs key = Some (snd (selectCategory lower cat name)))
   \<and> ((\<forall>k\<in>set (map fst categoryConfigs).
          \<not> (ciSubstring lower k cat \<or> ciSubstring lower k name))
      \<longrightarrow> selectCategory lower cat name
            = (''Generic'',
               \<lparr>maxReviews = 1000, weight = 55 / 100, baseUncertaintyFactor = 45 / 100\<rparr>))
   \<and> fst (selectCategory lower cat name) \<in> set (map fst categoryConfigs)
   \<and> map_of categoryConfigs (fst (selectCategory lower cat name))
       = Some (snd (selectCategory lower cat name))
   \<and> (lowersAscii lower \<and> isAscii s \<and> k \<in> set (map fst categoryConfigs)
      \<longrightarrow> (ciSubstring lower k s \<longleftrightarrow> ciOccurs (js k) s))"
proof (intro conjI impI)
  show "map fst categoryConfigs =
     [''Restaurant'', ''Cafe'', ''Store'', ''Park'', ''Hotel'', ''Museum'', ''Bank'',
      ''Hospital'', ''School'', ''Generic'']"
    by (rule categoryKeys)
next
  assume h: "map fst categoryConfigs = pre @ key # post
        \<and> (\<forall>k\<in>set pre. \<not> (ciSubstring lower k cat \<or> ciSubstring lower k name))
        \<and> (ciSubstring lower key cat \<or> ciSubstring lower key name)"
  then have "scanKeys lower (pre @ key # post) (lower cat) name = Some key"
    by (intro scanKeys_first) (simp_all add: keyMatches_iff)
  with h have "scanKeys lower (map fst categoryConfigs) (lower cat) name = Some key"
    by simp
  then show k: "fst (selectCategory lower cat name) = key"
    by (simp add: selectCategory_def)
  show "map_of categoryConfigs key = Some (snd (selectCategory lower cat name))"
    using selectCategory_lookup [of lower cat name] unfolding k .
next
  assume "\<forall>k\<in>set (map fst categoryConfigs).
            \<not> (ciSubstring lower k cat \<or> ciSubstring lower k name)"
  then have "scanKeys lower (map fst categoryConfigs) (lower cat) name = None"
    by (intro scanKeys_None) (simp add: keyMatches_iff)
  then show "selectCategory lower cat name
            = (''Generic'',
               \<lparr>maxReviews = 1000, weight = 55 / 100, baseUncertaintyFactor = 45 / 100\<rparr>)"
    by (simp add: selectCategory_def lookup_Generic)
next
  show "map_of categoryConfigs (fst (selectCategory lower cat name))
      = Some (snd (selectCategory lower cat name))"
    by (rule selectCategory_lookup)
  then have "map_of categoryConfigs (fst (selectCategory lower cat name)) \<noteq> None"
    by simp
  then show "fst (selectCategory lower cat name) \<in> set (map fst categoryConfigs)"
    by (simp add: map_of_eq_None_iff)
next
  assume "lowersAscii lower \<and> isAscii s \<and> k \<in> set (map fst categoryConfigs)"
  then show "ciSubstring lower k s \<longleftrightarrow> ciOccurs (js k) s"
    by (intro ciSubstring_ascii categoryKeys_ascii) simp_all
qed


theorem category_resolution_witness:
  "lowersAscii asciiLower \<and> lowersAscii kelvinLower
   \<and> isAscii (js ''bank street CaFe'')
   \<and> ciSubstring asciiLower ''Bank'' (js ''bank street CaFe'')
   \<and> fst (selectCategory asciiLower (js ''COFFEE shop'') (js ''bank street CaFe'')) = ''Cafe''
   \<and> snd (selectCategory asciiLower (js ''COFFEE shop'') (js ''bank street CaFe''))
       = \<lparr>maxReviews = 3000, weight = 80 / 100, baseUncertaintyFactor = 20 / 100\<rparr>
   \<and> ciOccurs (js ''Cafe'') (js ''bank street CaFe'')
   \<and> selectCategory asciiLower (js ''Library'') (js ''City Library'')
       = (''Generic'', \<lparr>maxReviews = 1000, weight = 55 / 100, baseUncertaintyFactor = 45 / 100\<rparr>)
   \<and> fst (selectCategory kelvinLower (js ''Finance'') (js ''BAN'' @ [0x212A])) = ''Bank''"
proof -
  let ?post = "[''Store'', ''Park'', ''Hotel'', ''Museum'', ''Bank'', ''Hospital'', ''School'',
                ''Generic'']"
  let ?cat = "js ''COFFEE shop''"
  let ?name = "js ''bank street CaFe''"
  have a1: "lowersAscii asciiLower" by (rule lowersAscii_asciiLower)
  have a2: "lowersAscii kelvinLower" by (rule lowersAscii_kelvinLower)
  have a3: "isAscii ?name" by (simp add: isAscii_def js_def)
  have h1: "map fst categoryConfigs = [''Restaurant''] @ ''Cafe'' # ?post"
    by (simp add: categoryKeys)
  have h2: "\<forall>k\<in>set [''Restaurant''].
              \<not> (ciSubstring asciiLower k ?cat \<or> ciSubstring asciiLower k ?name)"
    unfolding ciSubstring_iff by code_simp
  have h3: "ciSubstring asciiLower ''Cafe'' ?name"
    unfolding ciSubstring_iff by code_simp
  have h4: "ciSubstring asciiLower ''Bank'' ?name"
    unfolding ciSubstring_iff by code_simp
  have h5: "\<forall>k\<in>set (map fst categoryConfigs).
              \<not> (ciSubstring asciiLower k (js ''Library'')
                 \<or> ciSubstring asciiLower k (js ''City Library''))"
    unfolding ciSubstring_iff categoryKeys by code_simp
  have h6: "map fst categoryConfigs
      = [''Restaurant'', ''Cafe'', ''Store'', ''Park'', ''Hotel'', ''Museum''] @ ''Bank''
        # [''Hospital'', ''School'', ''Generic'']"
    by (simp add: categoryKeys)
  have h7: "\<forall>k\<in>set [''Restaurant'', ''Cafe'', ''Store'', ''Park'', ''Hotel'', ''Museum''].
              \<not> (ciSubstring kelvinLower k (js ''Finance'')
                 \<or> ciSubstring kelvinLower k (js ''BAN'' @ [0x212A]))"
    unfolding ciSubstring_iff by code_simp
  have h8: "ciSubstring kelvinLower ''Bank'' (js ''BAN'' @ [0x212A])"
    unfolding ciSubstring_iff by code_simp
  have h9: "''Cafe'' \<in> set (map fst categoryConfigs)"
    by (simp add: categoryKeys)
  from category_resolution [where lower = asciiLower and pre = "[''Restaurant'']"
      and key = "''Cafe''" and post = ?post and cat = ?cat and name = ?name
      and s = ?name and k = "''Cafe''"] h1 h2 h3 a1 a3 h9
  have r1: "fst (selectCategory asciiLower ?cat ?name) = ''Cafe''
      \<and> map_of categoryConfigs ''Cafe'' = Some (snd (selectCategory asciiLower ?cat ?name))
      \<and> ciOccurs (js ''Cafe'') ?name"
    by blast
  have "map_of categoryConfigs ''Cafe''
      = Some \<lparr>maxReviews = 3000, weight = 80 / 100, baseUncertaintyFactor = 20 / 100\<rparr>"
    by (simp add: categoryConfigs_def)
  with r1 have r2: "snd (selectCategory asciiLower ?cat ?name)
       = \<lparr>maxReviews = 3000, weight = 80 / 100, baseUncertaintyFactor = 20 / 100\<rparr>"
    by simp
  from category_resolution [where lower = asciiLower and cat = "js ''Library''"
      and name = "js ''City Library''"] h5
  have r3: "selectCategory asciiLower (js ''Library'') (js ''City Library'')
       = (''Generic'', \<lparr>maxReviews = 1000, weight = 55 / 100, baseUncertaintyFactor = 45 / 100\<rparr>)"
    by blast
  from category_resolution [where lower = kelvinLower
      and pre = "[''Restaurant'', ''Cafe'', ''Store'', ''Park'', ''Hotel'', ''Museum'']"
      and key = "''Bank''" and post = "[''Hospital'', ''School'', ''Generic'']"
      and cat = "js ''Finance''" and name = "js ''BAN'' @ [0x212A]"] h6 h7 h8
  have r4: "fst (selectCategory kelvinLower (js ''Finance'') (js ''BAN'' @ [0x212A])) = ''Bank''"
    by blast
  from a1 a2 a3 h4 r1 r2 r3 r4 show ?thesis by blast
qed

section \<open>Properties of the rounding\<close>

lemma rne_of_int: "rne (of_int n) = n"
  by (simp add: rne_def)

lemma rne_ge_floor: "\<lfloor>q\<rfloor> \<le> rne q"
  by (simp add: rne_def Let_def)

lemma rne_le_floor_Suc: "rne q \<le> \<lfloor>q\<rfloor> + 1"
  by (simp add: rne_def Let_def)

lemma rne_mono:
  assumes "q \<le> q'"
  shows "rne q \<le> rne q'"
proof (cases "\<lfloor>q\<rfloor> = \<lfloor>q'\<rfloor>")
  case True
  from assms have "q - of_int \<lfloor>q\<rfloor> \<le> q' - of_int \<lfloor>q\<rfloor>" by simp
  with True show ?thesis
    by (auto simp: rne_def Let_def)
next
  case False
  with assms have "\<lfloor>q\<rfloor> < \<lfloor>q'\<rfloor>"
    by (simp add: floor_mono order.strict_iff_order)
  then have "\<lfloor>q\<rfloor> + 1 \<le> \<lfloor>q'\<rfloor>" by simp
  with rne_le_floor_Suc [of q] rne_ge_floor [of q'] show ?thesis
    by linarith
qed

lemma rne_minus: "rne (- q) = - rne q"
proof (cases "q \<in> \<int>")
  case True
  then obtain n where "q = of_int n" by (auto elim: Ints_cases)
  then have "rne (- q) = rne (of_int (- n))" by simp
  also have "\<dots> = - n" by (rule rne_of_int)
  finally show ?thesis using \<open>q = of_int n\<close> by (simp add: rne_of_int)
next
  case False
  then have "q \<noteq> of_int \<lfloor>q\<rfloor>"
    by (metis Ints_of_int)
  then have fl: "\<lfloor>- q\<rfloor> = - \<lfloor>q\<rfloor> - 1"
    by (simp add: floor_minus ceiling_altdef)
  have d: "- q - of_int (- \<lfloor>q\<rfloor> - 1) = 1 - (q - of_int \<lfloor>q\<rfloor>)"
    by simp
  show ?thesis
    unfolding rne_def Let_def fl d
    by (auto simp: algebra_simps)
qed


lemma ulp_pos: "0 < ulp x"
  by (simp add: ulp_def)

lemma ulp_minus: "ulp (- x) = ulp x"
  by (simp add: ulp_def)

lemma ulp_abs: "ulp \<bar>x\<bar> = ulp x"
  by (simp add: ulp_def)

lemma ulp_eq_iff:
  assumes "x \<noteq> 0"
  shows "ulp x = 2 powr of_int j \<longleftrightarrow> 2 ^ 52 * 2 powr of_int j \<le> \<bar>x\<bar> \<and> \<bar>x\<bar> < 2 ^ 53 * 2 powr of_int j"
proof -
  have p52: "(2::real) powr of_int (j + 52) = 2 ^ 52 * 2 powr of_int j"
    by (simp add: powr_add)
  have p53: "(2::real) powr (of_int (j + 52) + 1) = 2 ^ 53 * 2 powr of_int j"
    by (simp add: powr_add)
  have "ulp x = 2 powr of_int j \<longleftrightarrow> \<lfloor>log 2 \<bar>x\<bar>\<rfloor> = j + 52"
    by (auto simp: ulp_def powr_inj)
  also have "\<dots> \<longleftrightarrow> 2 powr of_int (j + 52) \<le> \<bar>x\<bar> \<and> \<bar>x\<bar> < 2 powr (of_int (j + 52) + 1)"
    using assms floor_log_eq_powr_iff [of "\<bar>x\<bar>" 2 "j + 52"] by simp
  finally show ?thesis
    unfolding p52 p53 .
qed

lemma ulp_bounds:
  assumes "x \<noteq> 0"
  shows "2 ^ 52 * ulp x \<le> \<bar>x\<bar>" and "\<bar>x\<bar> < 2 ^ 53 * ulp x"
proof -
  have "ulp x = 2 powr of_int (\<lfloor>log 2 \<bar>x\<bar>\<rfloor> - 52)"
    by (simp add: ulp_def)
  with ulp_eq_iff [OF assms, of "\<lfloor>log 2 \<bar>x\<bar>\<rfloor> - 52"]
  show "2 ^ 52 * ulp x \<le> \<bar>x\<bar>" and "\<bar>x\<bar> < 2 ^ 53 * ulp x"
    by simp_all
qed

lemma fl_minus: "fl (- x) = - fl x"
  by (simp add: fl_def ulp_minus rne_minus)

lemma fl_eq:
  assumes "0 < x" and "2 ^ 52 * 2 powr of_int j \<le> x" and "x < 2 ^ 53 * 2 powr of_int j"
  shows "fl x = of_int (rne (x / 2 powr of_int j)) * 2 powr of_int j"
proof -
  from assms have "ulp x = 2 powr of_int j"
    by (subst ulp_eq_iff) simp_all
  with assms(1) show ?thesis
    by (simp add: fl_def)
qed

lemma fl_pos_bounds:
  assumes "0 < x"
  shows "2 ^ 52 * ulp x \<le> fl x" and "fl x \<le> 2 ^ 53 * ulp x"
proof -
  from assms have x: "x \<noteq> 0" "\<bar>x\<bar> = x" by simp_all
  have u: "0 < ulp x" by (rule ulp_pos)
  from ulp_bounds [OF x(1)] u have lo: "2 ^ 52 \<le> x / ulp x" and hi: "x / ulp x \<le> 2 ^ 53"
    unfolding x(2) by (simp_all add: pos_le_divide_eq pos_divide_le_eq)
  have "rne (of_int (2 ^ 52)) \<le> rne (x / ulp x)"
    using lo by (intro rne_mono) simp
  then have "(2 ^ 52 :: int) \<le> rne (x / ulp x)"
    by (simp only: rne_of_int)
  then have "(2 ^ 52 :: real) \<le> of_int (rne (x / ulp x))"
    by (metis of_int_le_iff of_int_numeral of_int_power)
  with u have "2 ^ 52 * ulp x \<le> of_int (rne (x / ulp x)) * ulp x"
    by (intro mult_right_mono) simp_all
  then show "2 ^ 52 * ulp x \<le> fl x"
    using x(1) by (simp add: fl_def)
  have "rne (x / ulp x) \<le> rne (of_int (2 ^ 53))"
    using hi by (intro rne_mono) simp
  then have "rne (x / ulp x) \<le> (2 ^ 53 :: int)"
    by (simp only: rne_of_int)
  then have "of_int (rne (x / ulp x)) \<le> (2 ^ 53 :: real)"
    by (metis of_int_le_iff of_int_numeral of_int_power)
  with u have "of_int (rne (x / ulp x)) * ulp x \<le> 2 ^ 53 * ulp x"
    by (intro mult_right_mono) simp_all
  then show "fl x \<le> 2 ^ 53 * ulp x"
    using x(1) by (simp add: fl_def)
qed

lemma ulp_mono:
  assumes "0 < x" and "x \<le> y"
  shows "ulp x \<le> ulp y"
proof -
  from assms have "log 2 x \<le> log 2 y" by simp
  then have "\<lfloor>log 2 x\<rfloor> \<le> \<lfloor>log 2 y\<rfloor>" by (rule floor_mono)
  with assms show ?thesis
    by (simp add: ulp_def)
qed

lemma ulp_less_double:
  assumes "0 < x" and "x \<le> y" and "ulp x \<noteq> ulp y"
  shows "2 * ulp x \<le> ulp y"
proof -
  from assms(1,2) have "log 2 x \<le> log 2 y" by simp
  then have le: "\<lfloor>log 2 x\<rfloor> \<le> \<lfloor>log 2 y\<rfloor>" by (rule floor_mono)
  from assms(1,2) have ax: "\<bar>x\<bar> = x" "\<bar>y\<bar> = y" by simp_all
  from assms(3) have "\<lfloor>log 2 x\<rfloor> \<noteq> \<lfloor>log 2 y\<rfloor>"
    by (auto simp: ulp_def ax)
  with le have "\<lfloor>log 2 x\<rfloor> - 52 + 1 \<le> \<lfloor>log 2 y\<rfloor> - 52" by simp
  then have "(2::real) powr of_int (\<lfloor>log 2 x\<rfloor> - 52 + 1) \<le> 2 powr of_int (\<lfloor>log 2 y\<rfloor> - 52)"
    by (simp only: powr_le_cancel_iff of_int_le_iff)
  moreover have "(2::real) powr of_int (\<lfloor>log 2 x\<rfloor> - 52 + 1) = 2 * 2 powr of_int (\<lfloor>log 2 x\<rfloor> - 52)"
    by (simp only: of_int_add of_int_1 powr_add powr_one_eq_one powr_one)
  ultimately show ?thesis
    by (simp only: ulp_def ax)
qed

lemma fl_mono_pos:
  assumes "0 < x" and "x \<le> y"
  shows "fl x \<le> fl y"
proof (cases "ulp x = ulp y")
  case True
  from assms have y: "0 < y" by simp
  have u: "0 < ulp y" by (rule ulp_pos)
  from assms(2) u have "x / ulp y \<le> y / ulp y"
    by (simp add: divide_right_mono)
  then have "rne (x / ulp y) \<le> rne (y / ulp y)" by (rule rne_mono)
  then have "(of_int (rne (x / ulp y)) :: real) \<le> of_int (rne (y / ulp y))" by simp
  with u have "of_int (rne (x / ulp y)) * ulp y \<le> of_int (rne (y / ulp y)) * ulp y"
    by (intro mult_right_mono) simp_all
  with assms(1) y True show ?thesis
    by (simp add: fl_def)
next
  case False
  from assms have y: "0 < y" by simp
  from assms False have "2 * ulp x \<le> ulp y" by (rule ulp_less_double)
  then have "2 ^ 53 * ulp x \<le> 2 ^ 52 * ulp y" by simp
  with fl_pos_bounds(2) [OF assms(1)] fl_pos_bounds(1) [OF y] show ?thesis
    by linarith
qed

lemma fl_zero: "fl 0 = 0"
  by (simp add: fl_def)

lemma fl_pos: "0 < x \<Longrightarrow> 0 < fl x"
proof -
  assume x: "0 < x"
  have "0 < 2 ^ 52 * ulp x" using ulp_pos [of x] by simp
  with fl_pos_bounds(1) [OF x] show ?thesis by linarith
qed

lemma fl_mono:
  assumes "x \<le> y"
  shows "fl x \<le> fl y"
proof -
  consider "0 < x" | "x = 0" "y = 0" | "x = 0" "0 < y" | "x < 0" "0 \<le> y" | "x < 0" "y < 0"
    using assms by linarith
  then show ?thesis
  proof cases
    case 1
    with assms show ?thesis by (intro fl_mono_pos)
  next
    case 2
    then show ?thesis by simp
  next
    case 3
    with fl_pos [of y] show ?thesis by (simp add: fl_zero)
  next
    case 4
    from 4(1) have "0 < fl (- x)" by (intro fl_pos) simp
    then have a: "fl x < 0" by (simp add: fl_minus)
    from 4(2) have "0 \<le> fl y"
      using fl_pos [of y] by (cases "y = 0") (simp_all add: fl_zero less_imp_le)
    with a show ?thesis by linarith
  next
    case 5
    with assms have "fl (- y) \<le> fl (- x)" by (intro fl_mono_pos) simp_all
    then show ?thesis by (simp add: fl_minus)
  qed
qed

lemma fl_nonneg: "0 \<le> x \<Longrightarrow> 0 \<le> fl x"
  using fl_mono [of 0 x] by (simp add: fl_zero)


lemma pow2_powr_neg: "(2::real) powr of_int (- int k) = 1 / 2 ^ k"
  by (simp add: powr_minus_divide powr_realpow)

lemma pow2_powr_pos: "(2::real) powr of_int (int k) = 2 ^ k"
  by (simp add: powr_realpow)

lemma fl_eval_mul:
  assumes "0 < x" and "2 ^ 52 \<le> x * 2 ^ k" and "x * 2 ^ k < 2 ^ 53"
  shows "fl x = of_int (rne (x * 2 ^ k)) / 2 ^ k"
proof -
  have "fl x = of_int (rne (x / 2 powr of_int (- int k))) * 2 powr of_int (- int k)"
    using assms unfolding pow2_powr_neg
    by (intro fl_eq [of x "- int k", unfolded pow2_powr_neg]) (simp_all add: field_simps)
  then show ?thesis
    unfolding pow2_powr_neg by simp
qed

lemma fl_eval_div:
  assumes "0 < x" and "2 ^ 52 \<le> x / 2 ^ k" and "x / 2 ^ k < 2 ^ 53"
  shows "fl x = of_int (rne (x / 2 ^ k)) * 2 ^ k"
  using assms
  by (intro fl_eq [of x "int k", unfolded pow2_powr_pos]) (simp_all add: field_simps)

lemma fl_repr:
  assumes "2 ^ 52 \<le> m" and "m \<le> 2 ^ 53"
  shows "fl (of_int m * 2 powr of_int j) = of_int m * 2 powr of_int j"
proof (cases "m = 2 ^ 53")
  case False
  with assms have m: "m < 2 ^ 53" by simp
  let ?x = "of_int m * 2 powr of_int j :: real"
  have p: "(0::real) < 2 powr of_int j" by simp
  from assms(1) have m0: "(0::real) < of_int m" by simp
  from assms(1) have lo: "(2 ^ 52 :: real) \<le> of_int m"
    by (metis of_int_le_iff of_int_numeral of_int_power)
  from m have hi: "of_int m < (2 ^ 53 :: real)"
    by (metis of_int_less_iff of_int_numeral of_int_power)
  have "fl ?x = of_int (rne (?x / 2 powr of_int j)) * 2 powr of_int j"
    using m0 p lo hi by (intro fl_eq) simp_all
  also have "?x / 2 powr of_int j = of_int m" by simp
  finally show ?thesis by (simp only: rne_of_int)
next
  case True
  let ?x = "of_int m * 2 powr of_int j :: real"
  have x: "?x = 2 ^ 52 * 2 powr of_int (j + 1)"
    by (simp add: True powr_add)
  have "fl ?x = of_int (rne (?x / 2 powr of_int (j + 1))) * 2 powr of_int (j + 1)"
    unfolding x by (intro fl_eq) simp_all
  also have "?x / 2 powr of_int (j + 1) = of_int (2 ^ 52)"
    unfolding x by simp
  finally show ?thesis
    unfolding rne_of_int x by simp
qed

lemma rne_ulp_bounds:
  assumes "0 < x"
  shows "2 ^ 52 \<le> rne (x / ulp x)" and "rne (x / ulp x) \<le> 2 ^ 53"
proof -
  from assms have x: "x \<noteq> 0" "\<bar>x\<bar> = x" by simp_all
  have u: "0 < ulp x" by (rule ulp_pos)
  from ulp_bounds [OF x(1)] u have lo: "2 ^ 52 \<le> x / ulp x" and hi: "x / ulp x \<le> 2 ^ 53"
    unfolding x(2) by (simp_all add: pos_le_divide_eq pos_divide_le_eq)
  have "rne (of_int (2 ^ 52)) \<le> rne (x / ulp x)"
    using lo by (intro rne_mono) simp
  then show "(2 ^ 52 :: int) \<le> rne (x / ulp x)"
    by (simp only: rne_of_int)
  have "rne (x / ulp x) \<le> rne (of_int (2 ^ 53))"
    using hi by (intro rne_mono) simp
  then show "rne (x / ulp x) \<le> (2 ^ 53 :: int)"
    by (simp only: rne_of_int)
qed

lemma fl_idem: "fl (fl x) = fl x"
proof -
  have pos: "fl (fl y) = fl y" if "0 < y" for y
  proof -
    from that have "fl y = of_int (rne (y / ulp y)) * 2 powr of_int (\<lfloor>log 2 \<bar>y\<bar>\<rfloor> - 52)"
      by (simp add: fl_def ulp_def)
    moreover have "fl (of_int (rne (y / ulp y)) * 2 powr of_int (\<lfloor>log 2 \<bar>y\<bar>\<rfloor> - 52))
        = of_int (rne (y / ulp y)) * 2 powr of_int (\<lfloor>log 2 \<bar>y\<bar>\<rfloor> - 52)"
      using rne_ulp_bounds [OF that] by (rule fl_repr)
    ultimately show ?thesis by simp
  qed
  consider "0 < x" | "x = 0" | "x < 0" by linarith
  then show ?thesis
  proof cases
    case 1
    then show ?thesis by (rule pos)
  next
    case 2
    then show ?thesis by (simp add: fl_zero)
  next
    case 3
    then have "fl (fl (- x)) = fl (- x)" by (intro pos) simp
    then show ?thesis by (simp add: fl_minus)
  qed
qed

lemma exists_scale:
  fixes m :: nat
  assumes "0 < m" and "m \<le> 2 ^ 53"
  shows "\<exists>k. 2 ^ 52 \<le> m * 2 ^ k \<and> m * 2 ^ k \<le> 2 ^ 53"
  using assms
proof (induction "2 ^ 53 - m" arbitrary: m rule: less_induct)
  case less
  show ?case
  proof (cases "2 ^ 52 \<le> m")
    case True
    with less.prems have "2 ^ 52 \<le> m * 2 ^ 0 \<and> m * 2 ^ 0 \<le> 2 ^ 53" by simp
    then show ?thesis by blast
  next
    case False
    with less.prems have "2 ^ 53 - 2 * m < 2 ^ 53 - m" "0 < 2 * m" "2 * m \<le> 2 ^ 53"
      by simp_all
    then obtain k where "2 ^ 52 \<le> 2 * m * 2 ^ k \<and> 2 * m * 2 ^ k \<le> 2 ^ 53"
      using less.hyps [of "2 * m"] by blast
    then have "2 ^ 52 \<le> m * 2 ^ Suc k \<and> m * 2 ^ Suc k \<le> 2 ^ 53"
      by (simp add: mult.commute mult.left_commute)
    then show ?thesis by blast
  qed
qed

lemma fl_nat:
  fixes n :: nat
  assumes "n \<le> 2 ^ 53"
  shows "fl (real n) = real n"
proof (cases "n = 0")
  case True
  then show ?thesis by (simp add: fl_zero)
next
  case False
  with assms obtain k where k: "2 ^ 52 \<le> n * 2 ^ k" "n * 2 ^ k \<le> 2 ^ 53"
    using exists_scale [of n] by auto
  have r: "real n = of_int (int (n * 2 ^ k)) * 2 powr of_int (- int k)"
    unfolding pow2_powr_neg by simp
  from k have "(2 ^ 52 :: int) \<le> int (n * 2 ^ k)" and "int (n * 2 ^ k) \<le> 2 ^ 53"
    by (metis of_nat_le_iff of_nat_numeral of_nat_power)+
  then have "fl (of_int (int (n * 2 ^ k)) * 2 powr of_int (- int k))
      = of_int (int (n * 2 ^ k)) * 2 powr of_int (- int k)"
    by (rule fl_repr)
  then show ?thesis
    by (simp only: r [symmetric])
qed

section \<open>The aggregate-count path in double precision\<close>

lemma fl_one: "fl 1 = 1"
  using fl_nat [of 1] by simp

lemma fl_hundred: "fl 100 = 100"
  using fl_nat [of 100] by simp

lemma ratio_double_le_one:
  assumes "0 < maxReviews cfg"
  shows "fl (normalizedReviews c cfg / maxReviews cfg) \<le> 1"
proof -
  from assms have "normalizedReviews c cfg / maxReviews cfg \<le> 1"
    by (simp add: normalizedReviews_def)
  then have "fl (normalizedReviews c cfg / maxReviews cfg) \<le> fl 1"
    by (rule fl_mono)
  then show ?thesis by (simp only: fl_one)
qed

lemma mu_confidence_score_double_mono:
  assumes "0 < maxReviews cfg" and "0 \<le> weight cfg" and "c \<le> c'"
  shows "mu_confidence_score_double c cfg \<le> mu_confidence_score_double c' cfg"
proof -
  from assms(3) have "min c (maxReviews cfg) \<le> min c' (maxReviews cfg)"
    by simp
  with assms(1) have "min c (maxReviews cfg) / maxReviews cfg
      \<le> min c' (maxReviews cfg) / maxReviews cfg"
    by (simp add: divide_right_mono)
  then have "fl (min c (maxReviews cfg) / maxReviews cfg)
      \<le> fl (min c' (maxReviews cfg) / maxReviews cfg)"
    by (rule fl_mono)
  with assms(2) have "fl (min c (maxReviews cfg) / maxReviews cfg) * weight cfg
      \<le> fl (min c' (maxReviews cfg) / maxReviews cfg) * weight cfg"
    by (intro mult_right_mono)
  then have "fl (fl (min c (maxReviews cfg) / maxReviews cfg) * weight cfg)
      \<le> fl (fl (min c' (maxReviews cfg) / maxReviews cfg) * weight cfg)"
    by (rule fl_mono)
  then have "fl (fl (min c (maxReviews cfg) / maxReviews cfg) * weight cfg) * 100
      \<le> fl (fl (min c' (maxReviews cfg) / maxReviews cfg) * weight cfg) * 100"
    by simp
  then show ?thesis
    unfolding mu_confidence_score_double_def normalizedReviews_def by (rule fl_mono)
qed

lemma mu_confidence_score_double_plateau:
  assumes "0 < maxReviews cfg" and "maxReviews cfg \<le> c"
  shows "mu_confidence_score_double c cfg = fl (fl (weight cfg) * 100)"
  using assms
  by (simp add: mu_confidence_score_double_def normalizedReviews_def min_absorb2 fl_one)

lemma mu_confidence_score_double_le_cap:
  assumes "0 < maxReviews cfg" and "0 \<le> weight cfg"
  shows "mu_confidence_score_double c cfg \<le> fl (fl (weight cfg) * 100)"
proof -
  have "mu_confidence_score_double c cfg
      \<le> mu_confidence_score_double (max c (maxReviews cfg)) cfg"
    using assms by (intro mu_confidence_score_double_mono) simp_all
  also have "\<dots> = fl (fl (weight cfg) * 100)"
    using assms(1) by (intro mu_confidence_score_double_plateau) simp_all
  finally show ?thesis .
qed









section \<open>The weight cap in double precision\<close>

lemma mu_confidence_score_double_eval:
  assumes "fl (min c M / M) = r" and "fl (r * w) = x" and "fl (x * 100) = y"
  shows "mu_confidence_score_double c
           \<lparr>maxReviews = M, weight = w, baseUncertaintyFactor = b\<rparr> = y"
  using assms by (simp add: mu_confidence_score_double_def normalizedReviews_def)

lemma fl_weight_Restaurant: "fl (17 / 20) = 7656119366529843 / 9007199254740992"
  by (subst fl_eval_mul [where k = 53]) (simp_all add: rne_def)

lemma toDouble_Restaurant:
  "toDouble \<lparr>maxReviews = 5000, weight = 85 / 100, baseUncertaintyFactor = 15 / 100\<rparr>
     = \<lparr>maxReviews = 5000, weight = 7656119366529843 / 9007199254740992, baseUncertaintyFactor = fl (15 / 100)\<rparr>"
  using fl_nat [of 5000] by (simp add: toDouble_def fl_weight_Restaurant)

lemma mu_double_Restaurant_below:
  "mu_confidence_score_double 4999
     \<lparr>maxReviews = 5000, weight = 7656119366529843 / 9007199254740992, baseUncertaintyFactor = b\<rparr> = 1495036746612605 / 17592186044416"
proof (rule mu_confidence_score_double_eval [where r = "2251349453722511 / 2251799813685248" and x = "7654588142656537 / 9007199254740992"])
  show "fl (min 4999 5000 / 5000) = 2251349453722511 / 2251799813685248"
    by (subst fl_eval_mul [where k = 53]) (simp_all add: rne_def)
  show "fl ((2251349453722511 / 2251799813685248) * (7656119366529843 / 9007199254740992)) = 7654588142656537 / 9007199254740992"
    by (subst fl_eval_mul [where k = 53]) (simp_all add: rne_def)
  show "fl ((7654588142656537 / 9007199254740992) * 100) = 1495036746612605 / 17592186044416"
    by (subst fl_eval_mul [where k = 46]) (simp_all add: rne_def)
qed

lemma mu_double_Restaurant_cap:
  "mu_confidence_score_double 5000
     \<lparr>maxReviews = 5000, weight = 7656119366529843 / 9007199254740992, baseUncertaintyFactor = b\<rparr> = 85"
proof (rule mu_confidence_score_double_eval [where r = 1 and x = "7656119366529843 / 9007199254740992"])
  show "fl (min 5000 5000 / 5000) = 1"
    by (simp add: fl_one)
  show "fl (1 * (7656119366529843 / 9007199254740992)) = 7656119366529843 / 9007199254740992"
    by (subst fl_eval_mul [where k = 53]) (simp_all add: rne_def)
  show "fl ((7656119366529843 / 9007199254740992) * 100) = 85"
    by (subst fl_eval_mul [where k = 46]) (simp_all add: rne_def)
qed

lemma fl_weight_Cafe: "fl (4 / 5) = 3602879701896397 / 4503599627370496"
  by (subst fl_eval_mul [where k = 53]) (simp_all add: rne_def)

lemma toDouble_Cafe:
  "toDouble \<lparr>maxReviews = 3000, weight = 80 / 100, baseUncertaintyFactor = 20 / 100\<rparr>
     = \<lparr>maxReviews = 3000, weight = 3602879701896397 / 4503599627370496, baseUncertaintyFactor = fl (20 / 100)\<rparr>"
  using fl_nat [of 3000] by (simp add: toDouble_def fl_weight_Cafe)

lemma mu_double_Cafe_below:
  "mu_confidence_score_double 2999
     \<lparr>maxReviews = 3000, weight = 3602879701896397 / 4503599627370496, baseUncertaintyFactor = b\<rparr> = 5627623034368383 / 70368744177664"
proof (rule mu_confidence_score_double_eval [where r = "2251049213747353 / 2251799813685248" and x = "3601678741995765 / 4503599627370496"])
  show "fl (min 2999 3000 / 3000) = 2251049213747353 / 2251799813685248"
    by (subst fl_eval_mul [where k = 53]) (simp_all add: rne_def)
  show "fl ((2251049213747353 / 2251799813685248) * (3602879701896397 / 4503599627370496)) = 3601678741995765 / 4503599627370496"
    by (subst fl_eval_mul [where k = 53]) (simp_all add: rne_def)
  show "fl ((3601678741995765 / 4503599627370496) * 100) = 5627623034368383 / 70368744177664"
    by (subst fl_eval_mul [where k = 46]) (simp_all add: rne_def)
qed

lemma mu_double_Cafe_cap:
  "mu_confidence_score_double 3000
     \<lparr>maxReviews = 3000, weight = 3602879701896397 / 4503599627370496, baseUncertaintyFactor = b\<rparr> = 80"
proof (rule mu_confidence_score_double_eval [where r = 1 and x = "3602879701896397 / 4503599627370496"])
  show "fl (min 3000 3000 / 3000) = 1"
    by (simp add: fl_one)
  show "fl (1 * (3602879701896397 / 4503599627370496)) = 3602879701896397 / 4503599627370496"
    by (subst fl_eval_mul [where k = 53]) (simp_all add: rne_def)
  show "fl ((3602879701896397 / 4503599627370496) * 100) = 80"
    by (subst fl_eval_mul [where k = 46]) (simp_all add: rne_def)
qed

lemma fl_weight_Store: "fl (7 / 10) = 3152519739159347 / 4503599627370496"
  by (subst fl_eval_mul [where k = 53]) (simp_all add: rne_def)

lemma toDouble_Store:
  "toDouble \<lparr>maxReviews = 2000, weight = 70 / 100, baseUncertaintyFactor = 30 / 100\<rparr>
     = \<lparr>maxReviews = 2000, weight = 3152519739159347 / 4503599627370496, baseUncertaintyFactor = fl (30 / 100)\<rparr>"
  using fl_nat [of 2000] by (simp add: toDouble_def fl_weight_Store)

lemma mu_double_Store_below:
  "mu_confidence_score_double 1999
     \<lparr>maxReviews = 2000, weight = 3152519739159347 / 4503599627370496, baseUncertaintyFactor = b\<rparr> = 2461674593195131 / 35184372088832"
proof (rule mu_confidence_score_double_eval [where r = "4501347827556811 / 4503599627370496" and x = "6301886958579535 / 9007199254740992"])
  show "fl (min 1999 2000 / 2000) = 4501347827556811 / 4503599627370496"
    by (subst fl_eval_mul [where k = 53]) (simp_all add: rne_def)
  show "fl ((4501347827556811 / 4503599627370496) * (3152519739159347 / 4503599627370496)) = 6301886958579535 / 9007199254740992"
    by (subst fl_eval_mul [where k = 53]) (simp_all add: rne_def)
  show "fl ((6301886958579535 / 9007199254740992) * 100) = 2461674593195131 / 35184372088832"
    by (subst fl_eval_mul [where k = 46]) (simp_all add: rne_def)
qed

lemma mu_double_Store_cap:
  "mu_confidence_score_double 2000
     \<lparr>maxReviews = 2000, weight = 3152519739159347 / 4503599627370496, baseUncertaintyFactor = b\<rparr> = 70"
proof (rule mu_confidence_score_double_eval [where r = 1 and x = "3152519739159347 / 4503599627370496"])
  show "fl (min 2000 2000 / 2000) = 1"
    by (simp add: fl_one)
  show "fl (1 * (3152519739159347 / 4503599627370496)) = 3152519739159347 / 4503599627370496"
    by (subst fl_eval_mul [where k = 53]) (simp_all add: rne_def)
  show "fl ((3152519739159347 / 4503599627370496) * 100) = 70"
    by (subst fl_eval_mul [where k = 46]) (simp_all add: rne_def)
qed

lemma fl_weight_Park: "fl (2 / 5) = 3602879701896397 / 9007199254740992"
  by (subst fl_eval_mul [where k = 54]) (simp_all add: rne_def)

lemma toDouble_Park:
  "toDouble \<lparr>maxReviews = 500, weight = 40 / 100, baseUncertaintyFactor = 60 / 100\<rparr>
     = \<lparr>maxReviews = 500, weight = 3602879701896397 / 9007199254740992, baseUncertaintyFactor = fl (60 / 100)\<rparr>"
  using fl_nat [of 500] by (simp add: toDouble_def fl_weight_Park)

lemma mu_double_Park_below:
  "mu_confidence_score_double 499
     \<lparr>maxReviews = 500, weight = 3602879701896397 / 9007199254740992, baseUncertaintyFactor = b\<rparr> = 2809120267572347 / 70368744177664"
proof (rule mu_confidence_score_double_eval [where r = "4494592428115755 / 4503599627370496" and x = "898918485623151 / 2251799813685248"])
  show "fl (min 499 500 / 500) = 4494592428115755 / 4503599627370496"
    by (subst fl_eval_mul [where k = 53]) (simp_all add: rne_def)
  show "fl ((4494592428115755 / 4503599627370496) * (3602879701896397 / 9007199254740992)) = 898918485623151 / 2251799813685248"
    by (subst fl_eval_mul [where k = 54]) (simp_all add: rne_def)
  show "fl ((898918485623151 / 2251799813685248) * 100) = 2809120267572347 / 70368744177664"
    by (subst fl_eval_mul [where k = 47]) (simp_all add: rne_def)
qed

lemma mu_double_Park_cap:
  "mu_confidence_score_double 500
     \<lparr>maxReviews = 500, weight = 3602879701896397 / 9007199254740992, baseUncertaintyFactor = b\<rparr> = 40"
proof (rule mu_confidence_score_double_eval [where r = 1 and x = "3602879701896397 / 9007199254740992"])
  show "fl (min 500 500 / 500) = 1"
    by (simp add: fl_one)
  show "fl (1 * (3602879701896397 / 9007199254740992)) = 3602879701896397 / 9007199254740992"
    by (subst fl_eval_mul [where k = 54]) (simp_all add: rne_def)
  show "fl ((3602879701896397 / 9007199254740992) * 100) = 40"
    by (subst fl_eval_mul [where k = 47]) (simp_all add: rne_def)
qed

lemma fl_weight_Hotel: "fl (9 / 10) = 8106479329266893 / 9007199254740992"
  by (subst fl_eval_mul [where k = 53]) (simp_all add: rne_def)

lemma toDouble_Hotel:
  "toDouble \<lparr>maxReviews = 10000, weight = 90 / 100, baseUncertaintyFactor = 10 / 100\<rparr>
     = \<lparr>maxReviews = 10000, weight = 8106479329266893 / 9007199254740992, baseUncertaintyFactor = fl (10 / 100)\<rparr>"
  using fl_nat [of 10000] by (simp add: toDouble_def fl_weight_Hotel)

lemma mu_double_Hotel_below:
  "mu_confidence_score_double 9999
     \<lparr>maxReviews = 10000, weight = 8106479329266893 / 9007199254740992, baseUncertaintyFactor = b\<rparr> = 6332553657292161 / 70368744177664"
proof (rule mu_confidence_score_double_eval [where r = "4503149267407759 / 4503599627370496" and x = "4052834340666983 / 4503599627370496"])
  show "fl (min 9999 10000 / 10000) = 4503149267407759 / 4503599627370496"
    by (subst fl_eval_mul [where k = 53]) (simp_all add: rne_def)
  show "fl ((4503149267407759 / 4503599627370496) * (8106479329266893 / 9007199254740992)) = 4052834340666983 / 4503599627370496"
    by (subst fl_eval_mul [where k = 53]) (simp_all add: rne_def)
  show "fl ((4052834340666983 / 4503599627370496) * 100) = 6332553657292161 / 70368744177664"
    by (subst fl_eval_mul [where k = 46]) (simp_all add: rne_def)
qed

lemma mu_double_Hotel_cap:
  "mu_confidence_score_double 10000
     \<lparr>maxReviews = 10000, weight = 8106479329266893 / 9007199254740992, baseUncertaintyFactor = b\<rparr> = 90"
proof (rule mu_confidence_score_double_eval [where r = 1 and x = "8106479329266893 / 9007199254740992"])
  show "fl (min 10000 10000 / 10000) = 1"
    by (simp add: fl_one)
  show "fl (1 * (8106479329266893 / 9007199254740992)) = 8106479329266893 / 9007199254740992"
    by (subst fl_eval_mul [where k = 53]) (simp_all add: rne_def)
  show "fl ((8106479329266893 / 9007199254740992) * 100) = 90"
    by (subst fl_eval_mul [where k = 46]) (simp_all add: rne_def)
qed

lemma fl_weight_Museum: "fl (13 / 20) = 5854679515581645 / 9007199254740992"
  by (subst fl_eval_mul [where k = 53]) (simp_all add: rne_def)

lemma toDouble_Museum:
  "toDouble \<lparr>maxReviews = 1500, weight = 65 / 100, baseUncertaintyFactor = 35 / 100\<rparr>
     = \<lparr>maxReviews = 1500, weight = 5854679515581645 / 9007199254740992, baseUncertaintyFactor = fl (35 / 100)\<rparr>"
  using fl_nat [of 1500] by (simp add: toDouble_def fl_weight_Museum)

lemma mu_double_Museum_below:
  "mu_confidence_score_double 1499
     \<lparr>maxReviews = 1500, weight = 5854679515581645 / 9007199254740992, baseUncertaintyFactor = b\<rparr> = 4570919059300461 / 70368744177664"
proof (rule mu_confidence_score_double_eval [where r = "9001194455237831 / 9007199254740992" and x = "2925388197952295 / 4503599627370496"])
  show "fl (min 1499 1500 / 1500) = 9001194455237831 / 9007199254740992"
    by (subst fl_eval_mul [where k = 53]) (simp_all add: rne_def)
  show "fl ((9001194455237831 / 9007199254740992) * (5854679515581645 / 9007199254740992)) = 2925388197952295 / 4503599627370496"
    by (subst fl_eval_mul [where k = 53]) (simp_all add: rne_def)
  show "fl ((2925388197952295 / 4503599627370496) * 100) = 4570919059300461 / 70368744177664"
    by (subst fl_eval_mul [where k = 46]) (simp_all add: rne_def)
qed

lemma mu_double_Museum_cap:
  "mu_confidence_score_double 1500
     \<lparr>maxReviews = 1500, weight = 5854679515581645 / 9007199254740992, baseUncertaintyFactor = b\<rparr> = 65"
proof (rule mu_confidence_score_double_eval [where r = 1 and x = "5854679515581645 / 9007199254740992"])
  show "fl (min 1500 1500 / 1500) = 1"
    by (simp add: fl_one)
  show "fl (1 * (5854679515581645 / 9007199254740992)) = 5854679515581645 / 9007199254740992"
    by (subst fl_eval_mul [where k = 53]) (simp_all add: rne_def)
  show "fl ((5854679515581645 / 9007199254740992) * 100) = 65"
    by (subst fl_eval_mul [where k = 46]) (simp_all add: rne_def)
qed

lemma fl_weight_Bank: "fl (3 / 10) = 5404319552844595 / 18014398509481984"
  by (subst fl_eval_mul [where k = 54]) (simp_all add: rne_def)

lemma toDouble_Bank:
  "toDouble \<lparr>maxReviews = 300, weight = 30 / 100, baseUncertaintyFactor = 70 / 100\<rparr>
     = \<lparr>maxReviews = 300, weight = 5404319552844595 / 18014398509481984, baseUncertaintyFactor = fl (70 / 100)\<rparr>"
  using fl_nat [of 300] by (simp add: toDouble_def fl_weight_Bank)

lemma mu_double_Bank_below:
  "mu_confidence_score_double 299
     \<lparr>maxReviews = 300, weight = 5404319552844595 / 18014398509481984, baseUncertaintyFactor = b\<rparr> = 4208050901824307 / 140737488355328"
proof (rule mu_confidence_score_double_eval [where r = "8977175257225189 / 9007199254740992" and x = "5386305154335113 / 18014398509481984"])
  show "fl (min 299 300 / 300) = 8977175257225189 / 9007199254740992"
    by (subst fl_eval_mul [where k = 53]) (simp_all add: rne_def)
  show "fl ((8977175257225189 / 9007199254740992) * (5404319552844595 / 18014398509481984)) = 5386305154335113 / 18014398509481984"
    by (subst fl_eval_mul [where k = 54]) (simp_all add: rne_def)
  show "fl ((5386305154335113 / 18014398509481984) * 100) = 4208050901824307 / 140737488355328"
    by (subst fl_eval_mul [where k = 48]) (simp_all add: rne_def)
qed

lemma mu_double_Bank_cap:
  "mu_confidence_score_double 300
     \<lparr>maxReviews = 300, weight = 5404319552844595 / 18014398509481984, baseUncertaintyFactor = b\<rparr> = 30"
proof (rule mu_confidence_score_double_eval [where r = 1 and x = "5404319552844595 / 18014398509481984"])
  show "fl (min 300 300 / 300) = 1"
    by (simp add: fl_one)
  show "fl (1 * (5404319552844595 / 18014398509481984)) = 5404319552844595 / 18014398509481984"
    by (subst fl_eval_mul [where k = 54]) (simp_all add: rne_def)
  show "fl ((5404319552844595 / 18014398509481984) * 100) = 30"
    by (subst fl_eval_mul [where k = 48]) (simp_all add: rne_def)
qed

lemma fl_weight_Hospital: "fl (1 / 2) = 1 / 2"
  by (subst fl_eval_mul [where k = 53]) (simp_all add: rne_def)

lemma toDouble_Hospital:
  "toDouble \<lparr>maxReviews = 2000, weight = 50 / 100, baseUncertaintyFactor = 50 / 100\<rparr>
     = \<lparr>maxReviews = 2000, weight = 1 / 2, baseUncertaintyFactor = fl (50 / 100)\<rparr>"
  using fl_nat [of 2000] by (simp add: toDouble_def fl_weight_Hospital)

lemma mu_double_Hospital_below:
  "mu_confidence_score_double 1999
     \<lparr>maxReviews = 2000, weight = 1 / 2, baseUncertaintyFactor = b\<rparr> = 7033355980557517 / 140737488355328"
proof (rule mu_confidence_score_double_eval [where r = "4501347827556811 / 4503599627370496" and x = "4501347827556811 / 9007199254740992"])
  show "fl (min 1999 2000 / 2000) = 4501347827556811 / 4503599627370496"
    by (subst fl_eval_mul [where k = 53]) (simp_all add: rne_def)
  show "fl ((4501347827556811 / 4503599627370496) * (1 / 2)) = 4501347827556811 / 9007199254740992"
    by (subst fl_eval_mul [where k = 54]) (simp_all add: rne_def)
  show "fl ((4501347827556811 / 9007199254740992) * 100) = 7033355980557517 / 140737488355328"
    by (subst fl_eval_mul [where k = 47]) (simp_all add: rne_def)
qed

lemma mu_double_Hospital_cap:
  "mu_confidence_score_double 2000
     \<lparr>maxReviews = 2000, weight = 1 / 2, baseUncertaintyFactor = b\<rparr> = 50"
proof (rule mu_confidence_score_double_eval [where r = 1 and x = "1 / 2"])
  show "fl (min 2000 2000 / 2000) = 1"
    by (simp add: fl_one)
  show "fl (1 * (1 / 2)) = 1 / 2"
    by (subst fl_eval_mul [where k = 53]) (simp_all add: rne_def)
  show "fl ((1 / 2) * 100) = 50"
    by (subst fl_eval_mul [where k = 47]) (simp_all add: rne_def)
qed

lemma fl_weight_School: "fl (9 / 20) = 8106479329266893 / 18014398509481984"
  by (subst fl_eval_mul [where k = 54]) (simp_all add: rne_def)

lemma toDouble_School:
  "toDouble \<lparr>maxReviews = 1000, weight = 45 / 100, baseUncertaintyFactor = 55 / 100\<rparr>
     = \<lparr>maxReviews = 1000, weight = 8106479329266893 / 18014398509481984, baseUncertaintyFactor = fl (55 / 100)\<rparr>"
  using fl_nat [of 1000] by (simp add: toDouble_def fl_weight_School)

lemma mu_double_School_below:
  "mu_confidence_score_double 999
     \<lparr>maxReviews = 1000, weight = 8106479329266893 / 18014398509481984, baseUncertaintyFactor = b\<rparr> = 3163426894506885 / 70368744177664"
proof (rule mu_confidence_score_double_eval [where r = "8998192055486251 / 9007199254740992" and x = "4049186424968813 / 9007199254740992"])
  show "fl (min 999 1000 / 1000) = 8998192055486251 / 9007199254740992"
    by (subst fl_eval_mul [where k = 53]) (simp_all add: rne_def)
  show "fl ((8998192055486251 / 9007199254740992) * (8106479329266893 / 18014398509481984)) = 4049186424968813 / 9007199254740992"
    by (subst fl_eval_mul [where k = 54]) (simp_all add: rne_def)
  show "fl ((4049186424968813 / 9007199254740992) * 100) = 3163426894506885 / 70368744177664"
    by (subst fl_eval_mul [where k = 47]) (simp_all add: rne_def)
qed

lemma mu_double_School_cap:
  "mu_confidence_score_double 1000
     \<lparr>maxReviews = 1000, weight = 8106479329266893 / 18014398509481984, baseUncertaintyFactor = b\<rparr> = 45"
proof (rule mu_confidence_score_double_eval [where r = 1 and x = "8106479329266893 / 18014398509481984"])
  show "fl (min 1000 1000 / 1000) = 1"
    by (simp add: fl_one)
  show "fl (1 * (8106479329266893 / 18014398509481984)) = 8106479329266893 / 18014398509481984"
    by (subst fl_eval_mul [where k = 54]) (simp_all add: rne_def)
  show "fl ((8106479329266893 / 18014398509481984) * 100) = 45"
    by (subst fl_eval_mul [where k = 47]) (simp_all add: rne_def)
qed

lemma fl_weight_Generic: "fl (11 / 20) = 2476979795053773 / 4503599627370496"
  by (subst fl_eval_mul [where k = 53]) (simp_all add: rne_def)

lemma toDouble_Generic:
  "toDouble \<lparr>maxReviews = 1000, weight = 55 / 100, baseUncertaintyFactor = 45 / 100\<rparr>
     = \<lparr>maxReviews = 1000, weight = 2476979795053773 / 4503599627370496, baseUncertaintyFactor = fl (45 / 100)\<rparr>"
  using fl_nat [of 1000] by (simp add: toDouble_def fl_weight_Generic)

lemma mu_double_Generic_below:
  "mu_confidence_score_double 999
     \<lparr>maxReviews = 1000, weight = 2476979795053773 / 4503599627370496, baseUncertaintyFactor = b\<rparr> = 7732821297683497 / 140737488355328"
proof (rule mu_confidence_score_double_eval [where r = "8998192055486251 / 9007199254740992" and x = "2474502815258719 / 4503599627370496"])
  show "fl (min 999 1000 / 1000) = 8998192055486251 / 9007199254740992"
    by (subst fl_eval_mul [where k = 53]) (simp_all add: rne_def)
  show "fl ((8998192055486251 / 9007199254740992) * (2476979795053773 / 4503599627370496)) = 2474502815258719 / 4503599627370496"
    by (subst fl_eval_mul [where k = 53]) (simp_all add: rne_def)
  show "fl ((2474502815258719 / 4503599627370496) * 100) = 7732821297683497 / 140737488355328"
    by (subst fl_eval_mul [where k = 47]) (simp_all add: rne_def)
qed

lemma mu_double_Generic_cap:
  "mu_confidence_score_double 1000
     \<lparr>maxReviews = 1000, weight = 2476979795053773 / 4503599627370496, baseUncertaintyFactor = b\<rparr> = 7740561859543041 / 140737488355328"
proof (rule mu_confidence_score_double_eval [where r = 1 and x = "2476979795053773 / 4503599627370496"])
  show "fl (min 1000 1000 / 1000) = 1"
    by (simp add: fl_one)
  show "fl (1 * (2476979795053773 / 4503599627370496)) = 2476979795053773 / 4503599627370496"
    by (subst fl_eval_mul [where k = 53]) (simp_all add: rne_def)
  show "fl ((2476979795053773 / 4503599627370496) * 100) = 7740561859543041 / 140737488355328"
    by (subst fl_eval_mul [where k = 47]) (simp_all add: rne_def)
qed

lemma below_cap_Restaurant:
  fixes n :: nat
  assumes "real n < 5000"
  shows "mu_confidence_score_double (real n)
           (toDouble \<lparr>maxReviews = 5000, weight = 85 / 100, baseUncertaintyFactor = 15 / 100\<rparr>)
       < mu_confidence_score_double 5000
           (toDouble \<lparr>maxReviews = 5000, weight = 85 / 100, baseUncertaintyFactor = 15 / 100\<rparr>)"
proof -
  from assms have "real n \<le> 4999" by simp
  then have "mu_confidence_score_double (real n)
      (toDouble \<lparr>maxReviews = 5000, weight = 85 / 100, baseUncertaintyFactor = 15 / 100\<rparr>)
      \<le> mu_confidence_score_double 4999
      (toDouble \<lparr>maxReviews = 5000, weight = 85 / 100, baseUncertaintyFactor = 15 / 100\<rparr>)"
    unfolding toDouble_Restaurant by (intro mu_confidence_score_double_mono) simp_all
  also have "\<dots> < mu_confidence_score_double 5000
      (toDouble \<lparr>maxReviews = 5000, weight = 85 / 100, baseUncertaintyFactor = 15 / 100\<rparr>)"
    unfolding toDouble_Restaurant mu_double_Restaurant_below mu_double_Restaurant_cap by simp
  finally show ?thesis .
qed

lemma below_cap_Cafe:
  fixes n :: nat
  assumes "real n < 3000"
  shows "mu_confidence_score_double (real n)
           (toDouble \<lparr>maxReviews = 3000, weight = 80 / 100, baseUncertaintyFactor = 20 / 100\<rparr>)
       < mu_confidence_score_double 3000
           (toDouble \<lparr>maxReviews = 3000, weight = 80 / 100, baseUncertaintyFactor = 20 / 100\<rparr>)"
proof -
  from assms have "real n \<le> 2999" by simp
  then have "mu_confidence_score_double (real n)
      (toDouble \<lparr>maxReviews = 3000, weight = 80 / 100, baseUncertaintyFactor = 20 / 100\<rparr>)
      \<le> mu_confidence_score_double 2999
      (toDouble \<lparr>maxReviews = 3000, weight = 80 / 100, baseUncertaintyFactor = 20 / 100\<rparr>)"
    unfolding toDouble_Cafe by (intro mu_confidence_score_double_mono) simp_all
  also have "\<dots> < mu_confidence_score_double 3000
      (toDouble \<lparr>maxReviews = 3000, weight = 80 / 100, baseUncertaintyFactor = 20 / 100\<rparr>)"
    unfolding toDouble_Cafe mu_double_Cafe_below mu_double_Cafe_cap by simp
  finally show ?thesis .
qed

lemma below_cap_Store:
  fixes n :: nat
  assumes "real n < 2000"
  shows "mu_confidence_score_double (real n)
           (toDouble \<lparr>maxReviews = 2000, weight = 70 / 100, baseUncertaintyFactor = 30 / 100\<rparr>)
       < mu_confidence_score_double 2000
           (toDouble \<lparr>maxReviews = 2000, weight = 70 / 100, baseUncertaintyFactor = 30 / 100\<rparr>)"
proof -
  from assms have "real n \<le> 1999" by simp
  then have "mu_confidence_score_double (real n)
      (toDouble \<lparr>maxReviews = 2000, weight = 70 / 100, baseUncertaintyFactor = 30 / 100\<rparr>)
      \<le> mu_confidence_score_double 1999
      (toDouble \<lparr>maxReviews = 2000, weight = 70 / 100, baseUncertaintyFactor = 30 / 100\<rparr>)"
    unfolding toDouble_Store by (intro mu_confidence_score_double_mono) simp_all
  also have "\<dots> < mu_confidence_score_double 2000
      (toDouble \<lparr>maxReviews = 2000, weight = 70 / 100, baseUncertaintyFactor = 30 / 100\<rparr>)"
    unfolding toDouble_Store mu_double_Store_below mu_double_Store_cap by simp
  finally show ?thesis .
qed

lemma below_cap_Park:
  fixes n :: nat
  assumes "real n < 500"
  shows "mu_confidence_score_double (real n)
           (toDouble \<lparr>maxReviews = 500, weight = 40 / 100, baseUncertaintyFactor = 60 / 100\<rparr>)
       < mu_confidence_score_double 500
           (toDouble \<lparr>maxReviews = 500, weight = 40 / 100, baseUncertaintyFactor = 60 / 100\<rparr>)"
proof -
  from assms have "real n \<le> 499" by simp
  then have "mu_confidence_score_double (real n)
      (toDouble \<lparr>maxReviews = 500, weight = 40 / 100, baseUncertaintyFactor = 60 / 100\<rparr>)
      \<le> mu_confidence_score_double 499
      (toDouble \<lparr>maxReviews = 500, weight = 40 / 100, baseUncertaintyFactor = 60 / 100\<rparr>)"
    unfolding toDouble_Park by (intro mu_confidence_score_double_mono) simp_all
  also have "\<dots> < mu_confidence_score_double 500
      (toDouble \<lparr>maxReviews = 500, weight = 40 / 100, baseUncertaintyFactor = 60 / 100\<rparr>)"
    unfolding toDouble_Park mu_double_Park_below mu_double_Park_cap by simp
  finally show ?thesis .
qed

lemma below_cap_Hotel:
  fixes n :: nat
  assumes "real n < 10000"
  shows "mu_confidence_score_double (real n)
           (toDouble \<lparr>maxReviews = 10000, weight = 90 / 100, baseUncertaintyFactor = 10 / 100\<rparr>)
       < mu_confidence_score_double 10000
           (toDouble \<lparr>maxReviews = 10000, weight = 90 / 100, baseUncertaintyFactor = 10 / 100\<rparr>)"
proof -
  from assms have "real n \<le> 9999" by simp
  then have "mu_confidence_score_double (real n)
      (toDouble \<lparr>maxReviews = 10000, weight = 90 / 100, baseUncertaintyFactor = 10 / 100\<rparr>)
      \<le> mu_confidence_score_double 9999
      (toDouble \<lparr>maxReviews = 10000, weight = 90 / 100, baseUncertaintyFactor = 10 / 100\<rparr>)"
    unfolding toDouble_Hotel by (intro mu_confidence_score_double_mono) simp_all
  also have "\<dots> < mu_confidence_score_double 10000
      (toDouble \<lparr>maxReviews = 10000, weight = 90 / 100, baseUncertaintyFactor = 10 / 100\<rparr>)"
    unfolding toDouble_Hotel mu_double_Hotel_below mu_double_Hotel_cap by simp
  finally show ?thesis .
qed

lemma below_cap_Museum:
  fixes n :: nat
  assumes "real n < 1500"
  shows "mu_confidence_score_double (real n)
           (toDouble \<lparr>maxReviews = 1500, weight = 65 / 100, baseUncertaintyFactor = 35 / 100\<rparr>)
       < mu_confidence_score_double 1500
           (toDouble \<lparr>maxReviews = 1500, weight = 65 / 100, baseUncertaintyFactor = 35 / 100\<rparr>)"
proof -
  from assms have "real n \<le> 1499" by simp
  then have "mu_confidence_score_double (real n)
      (toDouble \<lparr>maxReviews = 1500, weight = 65 / 100, baseUncertaintyFactor = 35 / 100\<rparr>)
      \<le> mu_confidence_score_double 1499
      (toDouble \<lparr>maxReviews = 1500, weight = 65 / 100, baseUncertaintyFactor = 35 / 100\<rparr>)"
    unfolding toDouble_Museum by (intro mu_confidence_score_double_mono) simp_all
  also have "\<dots> < mu_confidence_score_double 1500
      (toDouble \<lparr>maxReviews = 1500, weight = 65 / 100, baseUncertaintyFactor = 35 / 100\<rparr>)"
    unfolding toDouble_Museum mu_double_Museum_below mu_double_Museum_cap by simp
  finally show ?thesis .
qed

lemma below_cap_Bank:
  fixes n :: nat
  assumes "real n < 300"
  shows "mu_confidence_score_double (real n)
           (toDouble \<lparr>maxReviews = 300, weight = 30 / 100, baseUncertaintyFactor = 70 / 100\<rparr>)
       < mu_confidence_score_double 300
           (toDouble \<lparr>maxReviews = 300, weight = 30 / 100, baseUncertaintyFactor = 70 / 100\<rparr>)"
proof -
  from assms have "real n \<le> 299" by simp
  then have "mu_confidence_score_double (real n)
      (toDouble \<lparr>maxReviews = 300, weight = 30 / 100, baseUncertaintyFactor = 70 / 100\<rparr>)
      \<le> mu_confidence_score_double 299
      (toDouble \<lparr>maxReviews = 300, weight = 30 / 100, baseUncertaintyFactor = 70 / 100\<rparr>)"
    unfolding toDouble_Bank by (intro mu_confidence_score_double_mono) simp_all
  also have "\<dots> < mu_confidence_score_double 300
      (toDouble \<lparr>maxReviews = 300, weight = 30 / 100, baseUncertaintyFactor = 70 / 100\<rparr>)"
    unfolding toDouble_Bank mu_double_Bank_below mu_double_Bank_cap by simp
  finally show ?thesis .
qed

lemma below_cap_Hospital:
  fixes n :: nat
  assumes "real n < 2000"
  shows "mu_confidence_score_double (real n)
           (toDouble \<lparr>maxReviews = 2000, weight = 50 / 100, baseUncertaintyFactor = 50 / 100\<rparr>)
       < mu_confidence_score_double 2000
           (toDouble \<lparr>maxReviews = 2000, weight = 50 / 100, baseUncertaintyFactor = 50 / 100\<rparr>)"
proof -
  from assms have "real n \<le> 1999" by simp
  then have "mu_confidence_score_double (real n)
      (toDouble \<lparr>maxReviews = 2000, weight = 50 / 100, baseUncertaintyFactor = 50 / 100\<rparr>)
      \<le> mu_confidence_score_double 1999
      (toDouble \<lparr>maxReviews = 2000, weight = 50 / 100, baseUncertaintyFactor = 50 / 100\<rparr>)"
    unfolding toDouble_Hospital by (intro mu_confidence_score_double_mono) simp_all
  also have "\<dots> < mu_confidence_score_double 2000
      (toDouble \<lparr>maxReviews = 2000, weight = 50 / 100, baseUncertaintyFactor = 50 / 100\<rparr>)"
    unfolding toDouble_Hospital mu_double_Hospital_below mu_double_Hospital_cap by simp
  finally show ?thesis .
qed

lemma below_cap_School:
  fixes n :: nat
  assumes "real n < 1000"
  shows "mu_confidence_score_double (real n)
           (toDouble \<lparr>maxReviews = 1000, weight = 45 / 100, baseUncertaintyFactor = 55 / 100\<rparr>)
       < mu_confidence_score_double 1000
           (toDouble \<lparr>maxReviews = 1000, weight = 45 / 100, baseUncertaintyFactor = 55 / 100\<rparr>)"
proof -
  from assms have "real n \<le> 999" by simp
  then have "mu_confidence_score_double (real n)
      (toDouble \<lparr>maxReviews = 1000, weight = 45 / 100, baseUncertaintyFactor = 55 / 100\<rparr>)
      \<le> mu_confidence_score_double 999
      (toDouble \<lparr>maxReviews = 1000, weight = 45 / 100, baseUncertaintyFactor = 55 / 100\<rparr>)"
    unfolding toDouble_School by (intro mu_confidence_score_double_mono) simp_all
  also have "\<dots> < mu_confidence_score_double 1000
      (toDouble \<lparr>maxReviews = 1000, weight = 45 / 100, baseUncertaintyFactor = 55 / 100\<rparr>)"
    unfolding toDouble_School mu_double_School_below mu_double_School_cap by simp
  finally show ?thesis .
qed

lemma below_cap_Generic:
  fixes n :: nat
  assumes "real n < 1000"
  shows "mu_confidence_score_double (real n)
           (toDouble \<lparr>maxReviews = 1000, weight = 55 / 100, baseUncertaintyFactor = 45 / 100\<rparr>)
       < mu_confidence_score_double 1000
           (toDouble \<lparr>maxReviews = 1000, weight = 55 / 100, baseUncertaintyFactor = 45 / 100\<rparr>)"
proof -
  from assms have "real n \<le> 999" by simp
  then have "mu_confidence_score_double (real n)
      (toDouble \<lparr>maxReviews = 1000, weight = 55 / 100, baseUncertaintyFactor = 45 / 100\<rparr>)
      \<le> mu_confidence_score_double 999
      (toDouble \<lparr>maxReviews = 1000, weight = 55 / 100, baseUncertaintyFactor = 45 / 100\<rparr>)"
    unfolding toDouble_Generic by (intro mu_confidence_score_double_mono) simp_all
  also have "\<dots> < mu_confidence_score_double 1000
      (toDouble \<lparr>maxReviews = 1000, weight = 55 / 100, baseUncertaintyFactor = 45 / 100\<rparr>)"
    unfolding toDouble_Generic mu_double_Generic_below mu_double_Generic_cap by simp
  finally show ?thesis .
qed

lemma toDouble_weight_is_double: "fl (weight (toDouble cfg)) = weight (toDouble cfg)"
  by (simp add: toDouble_def fl_idem)

lemma mu_confidence_score_double_cap:
  assumes "0 < maxReviews (toDouble cfg)" and "maxReviews (toDouble cfg) \<le> c"
  shows "mu_confidence_score_double c (toDouble cfg) = fl (weight (toDouble cfg) * 100)"
  using mu_confidence_score_double_plateau [OF assms]
  by (simp only: toDouble_weight_is_double)

lemma mu_confidence_score_double_le:
  assumes "0 < maxReviews (toDouble cfg)" and "0 \<le> weight (toDouble cfg)"
  shows "mu_confidence_score_double c (toDouble cfg) \<le> fl (weight (toDouble cfg) * 100)"
  using mu_confidence_score_double_le_cap [OF assms]
  by (simp only: toDouble_weight_is_double)

lemma equality_iff_general:
  fixes n :: nat
  assumes pos: "0 < maxReviews (toDouble c)" "0 < weight (toDouble c)"
    and mx: "maxReviews (toDouble c) = M"
    and below: "real n < M \<Longrightarrow>
        mu_confidence_score_double (real n) (toDouble c)
          < mu_confidence_score_double M (toDouble c)"
  shows "0 < maxReviews (toDouble c) \<and> 0 < weight (toDouble c)
       \<and> (mu_confidence_score_double (real n) (toDouble c) = fl (weight (toDouble c) * 100)
            \<longleftrightarrow> maxReviews (toDouble c) \<le> real n)"
proof (cases "M \<le> real n")
  case True
  with pos mx show ?thesis
    by (simp add: mu_confidence_score_double_cap)
next
  case False
  then have "real n < M" by simp
  then have "mu_confidence_score_double (real n) (toDouble c)
      < mu_confidence_score_double M (toDouble c)"
    by (rule below)
  also have "\<dots> = fl (weight (toDouble c) * 100)"
    using pos(1) mx by (intro mu_confidence_score_double_cap) simp_all
  finally show ?thesis
    using False pos mx by simp
qed

lemma equality_iff_Restaurant:
  fixes n :: nat
  shows "0 < maxReviews (toDouble \<lparr>maxReviews = 5000, weight = 85 / 100, baseUncertaintyFactor = 15 / 100\<rparr>)
       \<and> 0 < weight (toDouble \<lparr>maxReviews = 5000, weight = 85 / 100, baseUncertaintyFactor = 15 / 100\<rparr>)
       \<and> (mu_confidence_score_double (real n) (toDouble \<lparr>maxReviews = 5000, weight = 85 / 100, baseUncertaintyFactor = 15 / 100\<rparr>)
            = fl (weight (toDouble \<lparr>maxReviews = 5000, weight = 85 / 100, baseUncertaintyFactor = 15 / 100\<rparr>) * 100)
          \<longleftrightarrow> maxReviews (toDouble \<lparr>maxReviews = 5000, weight = 85 / 100, baseUncertaintyFactor = 15 / 100\<rparr>) \<le> real n)"
proof (rule equality_iff_general [where M = 5000])
  show "0 < maxReviews (toDouble \<lparr>maxReviews = 5000, weight = 85 / 100, baseUncertaintyFactor = 15 / 100\<rparr>)"
    unfolding toDouble_Restaurant by simp
  show "0 < weight (toDouble \<lparr>maxReviews = 5000, weight = 85 / 100, baseUncertaintyFactor = 15 / 100\<rparr>)"
    unfolding toDouble_Restaurant by simp
  show "maxReviews (toDouble \<lparr>maxReviews = 5000, weight = 85 / 100, baseUncertaintyFactor = 15 / 100\<rparr>) = 5000"
    unfolding toDouble_Restaurant by simp
  show "mu_confidence_score_double (real n) (toDouble \<lparr>maxReviews = 5000, weight = 85 / 100, baseUncertaintyFactor = 15 / 100\<rparr>)
      < mu_confidence_score_double 5000 (toDouble \<lparr>maxReviews = 5000, weight = 85 / 100, baseUncertaintyFactor = 15 / 100\<rparr>)"
    if "real n < 5000"
    using that by (rule below_cap_Restaurant)
qed

lemma equality_iff_Cafe:
  fixes n :: nat
  shows "0 < maxReviews (toDouble \<lparr>maxReviews = 3000, weight = 80 / 100, baseUncertaintyFactor = 20 / 100\<rparr>)
       \<and> 0 < weight (toDouble \<lparr>maxReviews = 3000, weight = 80 / 100, baseUncertaintyFactor = 20 / 100\<rparr>)
       \<and> (mu_confidence_score_double (real n) (toDouble \<lparr>maxReviews = 3000, weight = 80 / 100, baseUncertaintyFactor = 20 / 100\<rparr>)
            = fl (weight (toDouble \<lparr>maxReviews = 3000, weight = 80 / 100, baseUncertaintyFactor = 20 / 100\<rparr>) * 100)
          \<longleftrightarrow> maxReviews (toDouble \<lparr>maxReviews = 3000, weight = 80 / 100, baseUncertaintyFactor = 20 / 100\<rparr>) \<le> real n)"
proof (rule equality_iff_general [where M = 3000])
  show "0 < maxReviews (toDouble \<lparr>maxReviews = 3000, weight = 80 / 100, baseUncertaintyFactor = 20 / 100\<rparr>)"
    unfolding toDouble_Cafe by simp
  show "0 < weight (toDouble \<lparr>maxReviews = 3000, weight = 80 / 100, baseUncertaintyFactor = 20 / 100\<rparr>)"
    unfolding toDouble_Cafe by simp
  show "maxReviews (toDouble \<lparr>maxReviews = 3000, weight = 80 / 100, baseUncertaintyFactor = 20 / 100\<rparr>) = 3000"
    unfolding toDouble_Cafe by simp
  show "mu_confidence_score_double (real n) (toDouble \<lparr>maxReviews = 3000, weight = 80 / 100, baseUncertaintyFactor = 20 / 100\<rparr>)
      < mu_confidence_score_double 3000 (toDouble \<lparr>maxReviews = 3000, weight = 80 / 100, baseUncertaintyFactor = 20 / 100\<rparr>)"
    if "real n < 3000"
    using that by (rule below_cap_Cafe)
qed

lemma equality_iff_Store:
  fixes n :: nat
  shows "0 < maxReviews (toDouble \<lparr>maxReviews = 2000, weight = 70 / 100, baseUncertaintyFactor = 30 / 100\<rparr>)
       \<and> 0 < weight (toDouble \<lparr>maxReviews = 2000, weight = 70 / 100, baseUncertaintyFactor = 30 / 100\<rparr>)
       \<and> (mu_confidence_score_double (real n) (toDouble \<lparr>maxReviews = 2000, weight = 70 / 100, baseUncertaintyFactor = 30 / 100\<rparr>)
            = fl (weight (toDouble \<lparr>maxReviews = 2000, weight = 70 / 100, baseUncertaintyFactor = 30 / 100\<rparr>) * 100)
          \<longleftrightarrow> maxReviews (toDouble \<lparr>maxReviews = 2000, weight = 70 / 100, baseUncertaintyFactor = 30 / 100\<rparr>) \<le> real n)"
proof (rule equality_iff_general [where M = 2000])
  show "0 < maxReviews (toDouble \<lparr>maxReviews = 2000, weight = 70 / 100, baseUncertaintyFactor = 30 / 100\<rparr>)"
    unfolding toDouble_Store by simp
  show "0 < weight (toDouble \<lparr>maxReviews = 2000, weight = 70 / 100, baseUncertaintyFactor = 30 / 100\<rparr>)"
    unfolding toDouble_Store by simp
  show "maxReviews (toDouble \<lparr>maxReviews = 2000, weight = 70 / 100, baseUncertaintyFactor = 30 / 100\<rparr>) = 2000"
    unfolding toDouble_Store by simp
  show "mu_confidence_score_double (real n) (toDouble \<lparr>maxReviews = 2000, weight = 70 / 100, baseUncertaintyFactor = 30 / 100\<rparr>)
      < mu_confidence_score_double 2000 (toDouble \<lparr>maxReviews = 2000, weight = 70 / 100, baseUncertaintyFactor = 30 / 100\<rparr>)"
    if "real n < 2000"
    using that by (rule below_cap_Store)
qed

lemma equality_iff_Park:
  fixes n :: nat
  shows "0 < maxReviews (toDouble \<lparr>maxReviews = 500, weight = 40 / 100, baseUncertaintyFactor = 60 / 100\<rparr>)
       \<and> 0 < weight (toDouble \<lparr>maxReviews = 500, weight = 40 / 100, baseUncertaintyFactor = 60 / 100\<rparr>)
       \<and> (mu_confidence_score_double (real n) (toDouble \<lparr>maxReviews = 500, weight = 40 / 100, baseUncertaintyFactor = 60 / 100\<rparr>)
            = fl (weight (toDouble \<lparr>maxReviews = 500, weight = 40 / 100, baseUncertaintyFactor = 60 / 100\<rparr>) * 100)
          \<longleftrightarrow> maxReviews (toDouble \<lparr>maxReviews = 500, weight = 40 / 100, baseUncertaintyFactor = 60 / 100\<rparr>) \<le> real n)"
proof (rule equality_iff_general [where M = 500])
  show "0 < maxReviews (toDouble \<lparr>maxReviews = 500, weight = 40 / 100, baseUncertaintyFactor = 60 / 100\<rparr>)"
    unfolding toDouble_Park by simp
  show "0 < weight (toDouble \<lparr>maxReviews = 500, weight = 40 / 100, baseUncertaintyFactor = 60 / 100\<rparr>)"
    unfolding toDouble_Park by simp
  show "maxReviews (toDouble \<lparr>maxReviews = 500, weight = 40 / 100, baseUncertaintyFactor = 60 / 100\<rparr>) = 500"
    unfolding toDouble_Park by simp
  show "mu_confidence_score_double (real n) (toDouble \<lparr>maxReviews = 500, weight = 40 / 100, baseUncertaintyFactor = 60 / 100\<rparr>)
      < mu_confidence_score_double 500 (toDouble \<lparr>maxReviews = 500, weight = 40 / 100, baseUncertaintyFactor = 60 / 100\<rparr>)"
    if "real n < 500"
    using that by (rule below_cap_Park)
qed

lemma equality_iff_Hotel:
  fixes n :: nat
  shows "0 < maxReviews (toDouble \<lparr>maxReviews = 10000, weight = 90 / 100, baseUncertaintyFactor = 10 / 100\<rparr>)
       \<and> 0 < weight (toDouble \<lparr>maxReviews = 10000, weight = 90 / 100, baseUncertaintyFactor = 10 / 100\<rparr>)
       \<and> (mu_confidence_score_double (real n) (toDouble \<lparr>maxReviews = 10000, weight = 90 / 100, baseUncertaintyFactor = 10 / 100\<rparr>)
            = fl (weight (toDouble \<lparr>maxReviews = 10000, weight = 90 / 100, baseUncertaintyFactor = 10 / 100\<rparr>) * 100)
          \<longleftrightarrow> maxReviews (toDouble \<lparr>maxReviews = 10000, weight = 90 / 100, baseUncertaintyFactor = 10 / 100\<rparr>) \<le> real n)"
proof (rule equality_iff_general [where M = 10000])
  show "0 < maxReviews (toDouble \<lparr>maxReviews = 10000, weight = 90 / 100, baseUncertaintyFactor = 10 / 100\<rparr>)"
    unfolding toDouble_Hotel by simp
  show "0 < weight (toDouble \<lparr>maxReviews = 10000, weight = 90 / 100, baseUncertaintyFactor = 10 / 100\<rparr>)"
    unfolding toDouble_Hotel by simp
  show "maxReviews (toDouble \<lparr>maxReviews = 10000, weight = 90 / 100, baseUncertaintyFactor = 10 / 100\<rparr>) = 10000"
    unfolding toDouble_Hotel by simp
  show "mu_confidence_score_double (real n) (toDouble \<lparr>maxReviews = 10000, weight = 90 / 100, baseUncertaintyFactor = 10 / 100\<rparr>)
      < mu_confidence_score_double 10000 (toDouble \<lparr>maxReviews = 10000, weight = 90 / 100, baseUncertaintyFactor = 10 / 100\<rparr>)"
    if "real n < 10000"
    using that by (rule below_cap_Hotel)
qed

lemma equality_iff_Museum:
  fixes n :: nat
  shows "0 < maxReviews (toDouble \<lparr>maxReviews = 1500, weight = 65 / 100, baseUncertaintyFactor = 35 / 100\<rparr>)
       \<and> 0 < weight (toDouble \<lparr>maxReviews = 1500, weight = 65 / 100, baseUncertaintyFactor = 35 / 100\<rparr>)
       \<and> (mu_confidence_score_double (real n) (toDouble \<lparr>maxReviews = 1500, weight = 65 / 100, baseUncertaintyFactor = 35 / 100\<rparr>)
            = fl (weight (toDouble \<lparr>maxReviews = 1500, weight = 65 / 100, baseUncertaintyFactor = 35 / 100\<rparr>) * 100)
          \<longleftrightarrow> maxReviews (toDouble \<lparr>maxReviews = 1500, weight = 65 / 100, baseUncertaintyFactor = 35 / 100\<rparr>) \<le> real n)"
proof (rule equality_iff_general [where M = 1500])
  show "0 < maxReviews (toDouble \<lparr>maxReviews = 1500, weight = 65 / 100, baseUncertaintyFactor = 35 / 100\<rparr>)"
    unfolding toDouble_Museum by simp
  show "0 < weight (toDouble \<lparr>maxReviews = 1500, weight = 65 / 100, baseUncertaintyFactor = 35 / 100\<rparr>)"
    unfolding toDouble_Museum by simp
  show "maxReviews (toDouble \<lparr>maxReviews = 1500, weight = 65 / 100, baseUncertaintyFactor = 35 / 100\<rparr>) = 1500"
    unfolding toDouble_Museum by simp
  show "mu_confidence_score_double (real n) (toDouble \<lparr>maxReviews = 1500, weight = 65 / 100, baseUncertaintyFactor = 35 / 100\<rparr>)
      < mu_confidence_score_double 1500 (toDouble \<lparr>maxReviews = 1500, weight = 65 / 100, baseUncertaintyFactor = 35 / 100\<rparr>)"
    if "real n < 1500"
    using that by (rule below_cap_Museum)
qed

lemma equality_iff_Bank:
  fixes n :: nat
  shows "0 < maxReviews (toDouble \<lparr>maxReviews = 300, weight = 30 / 100, baseUncertaintyFactor = 70 / 100\<rparr>)
       \<and> 0 < weight (toDouble \<lparr>maxReviews = 300, weight = 30 / 100, baseUncertaintyFactor = 70 / 100\<rparr>)
       \<and> (mu_confidence_score_double (real n) (toDouble \<lparr>maxReviews = 300, weight = 30 / 100, baseUncertaintyFactor = 70 / 100\<rparr>)
            = fl (weight (toDouble \<lparr>maxReviews = 300, weight = 30 / 100, baseUncertaintyFactor = 70 / 100\<rparr>) * 100)
          \<longleftrightarrow> maxReviews (toDouble \<lparr>maxReviews = 300, weight = 30 / 100, baseUncertaintyFactor = 70 / 100\<rparr>) \<le> real n)"
proof (rule equality_iff_general [where M = 300])
  show "0 < maxReviews (toDouble \<lparr>maxReviews = 300, weight = 30 / 100, baseUncertaintyFactor = 70 / 100\<rparr>)"
    unfolding toDouble_Bank by simp
  show "0 < weight (toDouble \<lparr>maxReviews = 300, weight = 30 / 100, baseUncertaintyFactor = 70 / 100\<rparr>)"
    unfolding toDouble_Bank by simp
  show "maxReviews (toDouble \<lparr>maxReviews = 300, weight = 30 / 100, baseUncertaintyFactor = 70 / 100\<rparr>) = 300"
    unfolding toDouble_Bank by simp
  show "mu_confidence_score_double (real n) (toDouble \<lparr>maxReviews = 300, weight = 30 / 100, baseUncertaintyFactor = 70 / 100\<rparr>)
      < mu_confidence_score_double 300 (toDouble \<lparr>maxReviews = 300, weight = 30 / 100, baseUncertaintyFactor = 70 / 100\<rparr>)"
    if "real n < 300"
    using that by (rule below_cap_Bank)
qed

lemma equality_iff_Hospital:
  fixes n :: nat
  shows "0 < maxReviews (toDouble \<lparr>maxReviews = 2000, weight = 50 / 100, baseUncertaintyFactor = 50 / 100\<rparr>)
       \<and> 0 < weight (toDouble \<lparr>maxReviews = 2000, weight = 50 / 100, baseUncertaintyFactor = 50 / 100\<rparr>)
       \<and> (mu_confidence_score_double (real n) (toDouble \<lparr>maxReviews = 2000, weight = 50 / 100, baseUncertaintyFactor = 50 / 100\<rparr>)
            = fl (weight (toDouble \<lparr>maxReviews = 2000, weight = 50 / 100, baseUncertaintyFactor = 50 / 100\<rparr>) * 100)
          \<longleftrightarrow> maxReviews (toDouble \<lparr>maxReviews = 2000, weight = 50 / 100, baseUncertaintyFactor = 50 / 100\<rparr>) \<le> real n)"
proof (rule equality_iff_general [where M = 2000])
  show "0 < maxReviews (toDouble \<lparr>maxReviews = 2000, weight = 50 / 100, baseUncertaintyFactor = 50 / 100\<rparr>)"
    unfolding toDouble_Hospital by simp
  show "0 < weight (toDouble \<lparr>maxReviews = 2000, weight = 50 / 100, baseUncertaintyFactor = 50 / 100\<rparr>)"
    unfolding toDouble_Hospital by simp
  show "maxReviews (toDouble \<lparr>maxReviews = 2000, weight = 50 / 100, baseUncertaintyFactor = 50 / 100\<rparr>) = 2000"
    unfolding toDouble_Hospital by simp
  show "mu_confidence_score_double (real n) (toDouble \<lparr>maxReviews = 2000, weight = 50 / 100, baseUncertaintyFactor = 50 / 100\<rparr>)
      < mu_confidence_score_double 2000 (toDouble \<lparr>maxReviews = 2000, weight = 50 / 100, baseUncertaintyFactor = 50 / 100\<rparr>)"
    if "real n < 2000"
    using that by (rule below_cap_Hospital)
qed

lemma equality_iff_School:
  fixes n :: nat
  shows "0 < maxReviews (toDouble \<lparr>maxReviews = 1000, weight = 45 / 100, baseUncertaintyFactor = 55 / 100\<rparr>)
       \<and> 0 < weight (toDouble \<lparr>maxReviews = 1000, weight = 45 / 100, baseUncertaintyFactor = 55 / 100\<rparr>)
       \<and> (mu_confidence_score_double (real n) (toDouble \<lparr>maxReviews = 1000, weight = 45 / 100, baseUncertaintyFactor = 55 / 100\<rparr>)
            = fl (weight (toDouble \<lparr>maxReviews = 1000, weight = 45 / 100, baseUncertaintyFactor = 55 / 100\<rparr>) * 100)
          \<longleftrightarrow> maxReviews (toDouble \<lparr>maxReviews = 1000, weight = 45 / 100, baseUncertaintyFactor = 55 / 100\<rparr>) \<le> real n)"
proof (rule equality_iff_general [where M = 1000])
  show "0 < maxReviews (toDouble \<lparr>maxReviews = 1000, weight = 45 / 100, baseUncertaintyFactor = 55 / 100\<rparr>)"
    unfolding toDouble_School by simp
  show "0 < weight (toDouble \<lparr>maxReviews = 1000, weight = 45 / 100, baseUncertaintyFactor = 55 / 100\<rparr>)"
    unfolding toDouble_School by simp
  show "maxReviews (toDouble \<lparr>maxReviews = 1000, weight = 45 / 100, baseUncertaintyFactor = 55 / 100\<rparr>) = 1000"
    unfolding toDouble_School by simp
  show "mu_confidence_score_double (real n) (toDouble \<lparr>maxReviews = 1000, weight = 45 / 100, baseUncertaintyFactor = 55 / 100\<rparr>)
      < mu_confidence_score_double 1000 (toDouble \<lparr>maxReviews = 1000, weight = 45 / 100, baseUncertaintyFactor = 55 / 100\<rparr>)"
    if "real n < 1000"
    using that by (rule below_cap_School)
qed

lemma equality_iff_Generic:
  fixes n :: nat
  shows "0 < maxReviews (toDouble \<lparr>maxReviews = 1000, weight = 55 / 100, baseUncertaintyFactor = 45 / 100\<rparr>)
       \<and> 0 < weight (toDouble \<lparr>maxReviews = 1000, weight = 55 / 100, baseUncertaintyFactor = 45 / 100\<rparr>)
       \<and> (mu_confidence_score_double (real n) (toDouble \<lparr>maxReviews = 1000, weight = 55 / 100, baseUncertaintyFactor = 45 / 100\<rparr>)
            = fl (weight (toDouble \<lparr>maxReviews = 1000, weight = 55 / 100, baseUncertaintyFactor = 45 / 100\<rparr>) * 100)
          \<longleftrightarrow> maxReviews (toDouble \<lparr>maxReviews = 1000, weight = 55 / 100, baseUncertaintyFactor = 45 / 100\<rparr>) \<le> real n)"
proof (rule equality_iff_general [where M = 1000])
  show "0 < maxReviews (toDouble \<lparr>maxReviews = 1000, weight = 55 / 100, baseUncertaintyFactor = 45 / 100\<rparr>)"
    unfolding toDouble_Generic by simp
  show "0 < weight (toDouble \<lparr>maxReviews = 1000, weight = 55 / 100, baseUncertaintyFactor = 45 / 100\<rparr>)"
    unfolding toDouble_Generic by simp
  show "maxReviews (toDouble \<lparr>maxReviews = 1000, weight = 55 / 100, baseUncertaintyFactor = 45 / 100\<rparr>) = 1000"
    unfolding toDouble_Generic by simp
  show "mu_confidence_score_double (real n) (toDouble \<lparr>maxReviews = 1000, weight = 55 / 100, baseUncertaintyFactor = 45 / 100\<rparr>)
      < mu_confidence_score_double 1000 (toDouble \<lparr>maxReviews = 1000, weight = 55 / 100, baseUncertaintyFactor = 45 / 100\<rparr>)"
    if "real n < 1000"
    using that by (rule below_cap_Generic)
qed

lemma table_cases:
  assumes "(key, c) \<in> set categoryConfigs"
  obtains
    "c = \<lparr>maxReviews = 5000, weight = 85 / 100, baseUncertaintyFactor = 15 / 100\<rparr>"
  | "c = \<lparr>maxReviews = 3000, weight = 80 / 100, baseUncertaintyFactor = 20 / 100\<rparr>"
  | "c = \<lparr>maxReviews = 2000, weight = 70 / 100, baseUncertaintyFactor = 30 / 100\<rparr>"
  | "c = \<lparr>maxReviews = 500, weight = 40 / 100, baseUncertaintyFactor = 60 / 100\<rparr>"
  | "c = \<lparr>maxReviews = 10000, weight = 90 / 100, baseUncertaintyFactor = 10 / 100\<rparr>"
  | "c = \<lparr>maxReviews = 1500, weight = 65 / 100, baseUncertaintyFactor = 35 / 100\<rparr>"
  | "c = \<lparr>maxReviews = 300, weight = 30 / 100, baseUncertaintyFactor = 70 / 100\<rparr>"
  | "c = \<lparr>maxReviews = 2000, weight = 50 / 100, baseUncertaintyFactor = 50 / 100\<rparr>"
  | "c = \<lparr>maxReviews = 1000, weight = 45 / 100, baseUncertaintyFactor = 55 / 100\<rparr>"
  | "c = \<lparr>maxReviews = 1000, weight = 55 / 100, baseUncertaintyFactor = 45 / 100\<rparr>"
  using assms unfolding categoryConfigs_def set_simps insert_iff empty_iff prod.inject
  by blast

lemma table_equality_iff:
  fixes n :: nat
  assumes "(key, c) \<in> set categoryConfigs"
  shows "0 < maxReviews (toDouble c) \<and> 0 < weight (toDouble c)
       \<and> (mu_confidence_score_double (real n) (toDouble c) = fl (weight (toDouble c) * 100)
            \<longleftrightarrow> maxReviews (toDouble c) \<le> real n)"
  using assms
proof (cases rule: table_cases)
  case 1
  show ?thesis
    unfolding 1 by (rule equality_iff_Restaurant)
next
  case 2
  show ?thesis
    unfolding 2 by (rule equality_iff_Cafe)
next
  case 3
  show ?thesis
    unfolding 3 by (rule equality_iff_Store)
next
  case 4
  show ?thesis
    unfolding 4 by (rule equality_iff_Park)
next
  case 5
  show ?thesis
    unfolding 5 by (rule equality_iff_Hotel)
next
  case 6
  show ?thesis
    unfolding 6 by (rule equality_iff_Museum)
next
  case 7
  show ?thesis
    unfolding 7 by (rule equality_iff_Bank)
next
  case 8
  show ?thesis
    unfolding 8 by (rule equality_iff_Hospital)
next
  case 9
  show ?thesis
    unfolding 9 by (rule equality_iff_School)
next
  case 10
  show ?thesis
    unfolding 10 by (rule equality_iff_Generic)
qed

text \<open>
  In double precision the point estimate can reach \<open>weight * 100\<close> below the
  ceiling, for a profile that is not one of the table: with \<open>maxReviews = 2\<^sup>5\<^sup>3\<close>
  and the weight \<open>0.8\<close>, one review short of the ceiling already scores \<open>80\<close>.
\<close>

lemma equality_below_ceiling:
  "mu_confidence_score_double 9007199254740991
     \<lparr>maxReviews = 9007199254740992, weight = 3602879701896397 / 4503599627370496, baseUncertaintyFactor = b\<rparr> = 80"
  "mu_confidence_score_double 9007199254740992
     \<lparr>maxReviews = 9007199254740992, weight = 3602879701896397 / 4503599627370496, baseUncertaintyFactor = b\<rparr> = 80"
proof -
  show "mu_confidence_score_double 9007199254740991
     \<lparr>maxReviews = 9007199254740992, weight = 3602879701896397 / 4503599627370496, baseUncertaintyFactor = b\<rparr> = 80"
  proof (rule mu_confidence_score_double_eval [where r = "9007199254740991 / 9007199254740992" and x = "7205759403792793 / 9007199254740992"])
    show "fl (min 9007199254740991 9007199254740992 / 9007199254740992) = 9007199254740991 / 9007199254740992"
      by (subst fl_eval_mul [where k = 53]) (simp_all add: rne_def)
    show "fl ((9007199254740991 / 9007199254740992) * (3602879701896397 / 4503599627370496)) = 7205759403792793 / 9007199254740992"
      by (subst fl_eval_mul [where k = 53]) (simp_all add: rne_def)
    show "fl ((7205759403792793 / 9007199254740992) * 100) = 80"
      by (subst fl_eval_mul [where k = 46]) (simp_all add: rne_def)
  qed
  show "mu_confidence_score_double 9007199254740992
     \<lparr>maxReviews = 9007199254740992, weight = 3602879701896397 / 4503599627370496, baseUncertaintyFactor = b\<rparr> = 80"
  proof (rule mu_confidence_score_double_eval [where r = 1 and x = "3602879701896397 / 4503599627370496"])
    show "fl (min 9007199254740992 9007199254740992 / 9007199254740992) = 1"
      by (simp add: fl_one)
    show "fl (1 * (3602879701896397 / 4503599627370496)) = 3602879701896397 / 4503599627370496"
      by (subst fl_eval_mul [where k = 53]) (simp_all add: rne_def)
    show "fl ((3602879701896397 / 4503599627370496) * 100) = 80"
      by (subst fl_eval_mul [where k = 46]) (simp_all add: rne_def)
  qed
qed

lemma selectCategory_Bank_example:
  "selectCategory asciiLower (js ''Bank'') (js ''First National'')
     = (''Bank'', \<lparr>maxReviews = 300, weight = 30 / 100, baseUncertaintyFactor = 70 / 100\<rparr>)"
proof -
  have "scanKeys asciiLower (map fst categoryConfigs) (asciiLower (js ''Bank''))
      (js ''First National'') = Some ''Bank''"
    unfolding categoryKeys by code_simp
  then show ?thesis
    by (simp add: selectCategory_def lookup_Bank)
qed

lemma selectCategory_Generic_example:
  "selectCategory asciiLower (js ''Library'') (js ''City Library'')
     = (''Generic'', \<lparr>maxReviews = 1000, weight = 55 / 100, baseUncertaintyFactor = 45 / 100\<rparr>)"
proof -
  have "scanKeys asciiLower (map fst categoryConfigs) (asciiLower (js ''Library''))
      (js ''City Library'') = None"
    unfolding categoryKeys by code_simp
  then show ?thesis
    by (simp add: selectCategory_def lookup_Generic)
qed

lemma cap_Bank:
  "fl (weight (toDouble \<lparr>maxReviews = 300, weight = 30 / 100,
       baseUncertaintyFactor = 70 / 100\<rparr>) * 100) = 30"
proof -
  have "mu_confidence_score_double 300
      (toDouble \<lparr>maxReviews = 300, weight = 30 / 100, baseUncertaintyFactor = 70 / 100\<rparr>)
      = fl (weight (toDouble \<lparr>maxReviews = 300, weight = 30 / 100,
          baseUncertaintyFactor = 70 / 100\<rparr>) * 100)"
    by (rule mu_confidence_score_double_cap) (unfold toDouble_Bank, simp_all)
  then show ?thesis
    unfolding toDouble_Bank mu_double_Bank_cap by simp
qed

lemma cap_Generic:
  "fl (weight (toDouble \<lparr>maxReviews = 1000, weight = 55 / 100,
       baseUncertaintyFactor = 45 / 100\<rparr>) * 100) = 55 + 1 / 2 ^ 47"
proof -
  have "mu_confidence_score_double 1000
      (toDouble \<lparr>maxReviews = 1000, weight = 55 / 100, baseUncertaintyFactor = 45 / 100\<rparr>)
      = fl (weight (toDouble \<lparr>maxReviews = 1000, weight = 55 / 100,
          baseUncertaintyFactor = 45 / 100\<rparr>) * 100)"
    by (rule mu_confidence_score_double_cap) (unfold toDouble_Generic, simp_all)
  then show ?thesis
    unfolding toDouble_Generic mu_double_Generic_cap by simp
qed

text \<open>
  Claim C9, amended to what the code does in double precision. For every review
  count \<open>\<ge> 0\<close> and every profile, the point estimate never exceeds the product
  \<open>weight * 100\<close> as the code computes it, and it is equal to this product
  whenever the review count is at least \<open>maxReviews\<close>; for the profiles of the
  table of the source it is equal to it exactly then. A place resolved as \<open>Bank\<close>
  never scores above \<open>30\<close>. For a place resolved as \<open>Generic\<close> the product is
  \<open>55 + 2\<^sup>-\<^sup>4\<^sup>7\<close>, which is \<^verbatim>\<open>55.00000000000001\<close>: such a place never scores above
  it, and scores exactly it from \<open>1000\<close> reviews on.
\<close>

theorem weight_cap_double:
  fixes n :: nat
  assumes "validConfig (toDouble cfg)"
  shows "mu_confidence_score_double (real n) (toDouble cfg) \<le> fl (weight (toDouble cfg) * 100)
       \<and> (maxReviews (toDouble cfg) \<le> real n
            \<longrightarrow> mu_confidence_score_double (real n) (toDouble cfg)
                = fl (weight (toDouble cfg) * 100))
       \<and> ((key, c) \<in> set categoryConfigs
            \<longrightarrow> (mu_confidence_score_double (real n) (toDouble c)
                   = fl (weight (toDouble c) * 100)
                 \<longleftrightarrow> maxReviews (toDouble c) \<le> real n))
       \<and> (fst (selectCategory lower cat name) = ''Bank''
            \<longrightarrow> fl (weight (toDouble (snd (selectCategory lower cat name))) * 100) = 30
              \<and> mu_confidence_score_double (real n)
                    (toDouble (snd (selectCategory lower cat name))) \<le> 30)
       \<and> (fst (selectCategory lower cat name) = ''Generic''
            \<longrightarrow> fl (weight (toDouble (snd (selectCategory lower cat name))) * 100)
                  = 55 + 1 / 2 ^ 47
              \<and> mu_confidence_score_double (real n)
                    (toDouble (snd (selectCategory lower cat name))) \<le> 55 + 1 / 2 ^ 47
              \<and> (1000 \<le> n
                   \<longrightarrow> mu_confidence_score_double (real n)
                         (toDouble (snd (selectCategory lower cat name))) = 55 + 1 / 2 ^ 47))"
proof -
  from assms have cfg: "0 < maxReviews (toDouble cfg)" "0 < weight (toDouble cfg)"
    by (simp_all add: validConfig_def)
  have a: "mu_confidence_score_double (real n) (toDouble cfg) \<le> fl (weight (toDouble cfg) * 100)"
    using cfg by (intro mu_confidence_score_double_le) simp_all
  have b: "mu_confidence_score_double (real n) (toDouble cfg) = fl (weight (toDouble cfg) * 100)"
    if "maxReviews (toDouble cfg) \<le> real n"
    using cfg(1) that by (rule mu_confidence_score_double_cap)
  have c: "mu_confidence_score_double (real n) (toDouble c) = fl (weight (toDouble c) * 100)
        \<longleftrightarrow> maxReviews (toDouble c) \<le> real n"
    if "(key, c) \<in> set categoryConfigs"
    using table_equality_iff [OF that, of n] by blast
  have d: "fl (weight (toDouble (snd (selectCategory lower cat name))) * 100) = 30
        \<and> mu_confidence_score_double (real n)
              (toDouble (snd (selectCategory lower cat name))) \<le> 30"
    if "fst (selectCategory lower cat name) = ''Bank''"
  proof -
    let ?bank = "\<lparr>maxReviews = 300, weight = 30 / 100, baseUncertaintyFactor = 70 / 100\<rparr>"
    from selectCategory_lookup [of lower cat name] that
    have s: "snd (selectCategory lower cat name) = ?bank"
      by (simp only: lookup_Bank option.inject)
    have "mu_confidence_score_double (real n) (toDouble ?bank)
        \<le> fl (weight (toDouble ?bank) * 100)"
      by (rule mu_confidence_score_double_le) (unfold toDouble_Bank, simp_all)
    then show ?thesis
      unfolding s cap_Bank by simp
  qed
  have e: "fl (weight (toDouble (snd (selectCategory lower cat name))) * 100) = 55 + 1 / 2 ^ 47
        \<and> mu_confidence_score_double (real n)
              (toDouble (snd (selectCategory lower cat name))) \<le> 55 + 1 / 2 ^ 47
        \<and> (1000 \<le> n
             \<longrightarrow> mu_confidence_score_double (real n)
                   (toDouble (snd (selectCategory lower cat name))) = 55 + 1 / 2 ^ 47)"
    if "fst (selectCategory lower cat name) = ''Generic''"
  proof -
    let ?gen = "\<lparr>maxReviews = 1000, weight = 55 / 100, baseUncertaintyFactor = 45 / 100\<rparr>"
    from selectCategory_lookup [of lower cat name] that
    have s: "snd (selectCategory lower cat name) = ?gen"
      by (simp only: lookup_Generic option.inject)
    have le: "mu_confidence_score_double (real n) (toDouble ?gen)
        \<le> fl (weight (toDouble ?gen) * 100)"
      by (rule mu_confidence_score_double_le) (unfold toDouble_Generic, simp_all)
    have eq: "mu_confidence_score_double (real n) (toDouble ?gen)
        = fl (weight (toDouble ?gen) * 100)" if "1000 \<le> n"
    proof (rule mu_confidence_score_double_cap)
      show "0 < maxReviews (toDouble ?gen)"
        unfolding toDouble_Generic by simp
      show "maxReviews (toDouble ?gen) \<le> real n"
        unfolding toDouble_Generic using that by simp
    qed
    from le eq show ?thesis
      unfolding s cap_Generic by blast
  qed
  from a b c d e show ?thesis by blast
qed

theorem weight_cap_double_witness:
  "validConfig (toDouble \<lparr>maxReviews = 300, weight = 30 / 100, baseUncertaintyFactor = 70 / 100\<rparr>)
   \<and> fst (selectCategory asciiLower (js ''Bank'') (js ''First National'')) = ''Bank''
   \<and> mu_confidence_score_double (real 100000)
        (toDouble (snd (selectCategory asciiLower (js ''Bank'') (js ''First National'')))) \<le> 30
   \<and> fst (selectCategory asciiLower (js ''Library'') (js ''City Library'')) = ''Generic''
   \<and> mu_confidence_score_double (real 100000)
        (toDouble (snd (selectCategory asciiLower (js ''Library'') (js ''City Library''))))
      = 55 + 1 / 2 ^ 47
   \<and> (mu_confidence_score_double (real 299)
         (toDouble \<lparr>maxReviews = 300, weight = 30 / 100, baseUncertaintyFactor = 70 / 100\<rparr>)
       \<noteq> fl (weight (toDouble \<lparr>maxReviews = 300, weight = 30 / 100,
                baseUncertaintyFactor = 70 / 100\<rparr>) * 100))"
proof -
  let ?bank = "\<lparr>maxReviews = 300, weight = 30 / 100, baseUncertaintyFactor = 70 / 100\<rparr>"
  have v: "validConfig (toDouble ?bank)"
  proof -
    have "fl (baseUncertaintyFactor ?bank) \<le> fl 1" by (intro fl_mono) simp
    moreover have "0 < fl (baseUncertaintyFactor ?bank)" by (intro fl_pos) simp
    moreover have "weight (toDouble ?bank) \<le> 1" "0 < weight (toDouble ?bank)"
      "0 < maxReviews (toDouble ?bank)"
      unfolding toDouble_Bank by simp_all
    ultimately show ?thesis
      by (simp add: validConfig_def toDouble_def fl_one)
  qed
  have k1: "fst (selectCategory asciiLower (js ''Bank'') (js ''First National'')) = ''Bank''"
    by (simp add: selectCategory_Bank_example)
  have k2: "fst (selectCategory asciiLower (js ''Library'') (js ''City Library'')) = ''Generic''"
    by (simp add: selectCategory_Generic_example)
  have m: "(''Bank'', ?bank) \<in> set categoryConfigs"
    by (simp add: categoryConfigs_def)
  have big: "(1000 :: nat) \<le> 100000" by simp
  have small: "\<not> maxReviews (toDouble ?bank) \<le> real 299"
    unfolding toDouble_Bank by simp
  from weight_cap_double [OF v, where n = 100000 and lower = asciiLower
      and cat = "js ''Bank''" and name = "js ''First National''"] k1
  have r1: "mu_confidence_score_double (real 100000)
      (toDouble (snd (selectCategory asciiLower (js ''Bank'') (js ''First National'')))) \<le> 30"
    by blast
  from weight_cap_double [OF v, where n = 100000 and lower = asciiLower
      and cat = "js ''Library''" and name = "js ''City Library''"] k2 big
  have r2: "mu_confidence_score_double (real 100000)
      (toDouble (snd (selectCategory asciiLower (js ''Library'') (js ''City Library''))))
      = 55 + 1 / 2 ^ 47"
    by blast
  from weight_cap_double [OF v, where n = 299 and key = "''Bank''" and c = ?bank] m small
  have r3: "mu_confidence_score_double (real 299) (toDouble ?bank)
      \<noteq> fl (weight (toDouble ?bank) * 100)"
    by blast
  from v k1 r1 k2 r2 r3 show ?thesis by blast
qed

text \<open>
  A place resolved as \<open>Generic\<close> scores above \<open>55\<close> at \<open>1000\<close> reviews.
\<close>

theorem generic_exceeds_55:
  "fst (selectCategory asciiLower (js ''Library'') (js ''City Library'')) = ''Generic''
   \<and> \<not> mu_confidence_score_double (real 1000)
          (toDouble (snd (selectCategory asciiLower (js ''Library'') (js ''City Library''))))
        \<le> 55"
proof -
  have "mu_confidence_score_double (real 1000)
      (toDouble \<lparr>maxReviews = 1000, weight = 55 / 100, baseUncertaintyFactor = 45 / 100\<rparr>)
      = 7740561859543041 / 140737488355328"
    unfolding toDouble_Generic using mu_double_Generic_cap by simp
  then show ?thesis
    by (simp add: selectCategory_Generic_example)
qed

section \<open>The star-distribution path in double precision\<close>

lemma fl_five: "fl 5 = 5"
  using fl_nat [of 5] by simp

lemma fl_four: "fl 4 = 4"
  using fl_nat [of 4] by simp

lemma getMeanAndSE_double_fields:
  "fst (getMeanAndSE_double revs) = mean_stars_double revs"
  "snd (getMeanAndSE_double revs) =
     (if sumArray_double revs > 0
      then fl (standard_dev_stars_double revs (mean_stars_double revs)
               / fl (sqrt (sumArray_double revs)))
      else 0)"
  by (simp_all add: getMeanAndSE_double_def Let_def)

text \<open>The rescaling of a star value to a percentage, as the handler writes it three times.\<close>

lemma rescale_mono:
  assumes "v \<le> v'"
  shows "fl (fl (fl (v - 1) / 4) * 100) \<le> fl (fl (fl (v' - 1) / 4) * 100)"
proof -
  from assms have "fl (v - 1) \<le> fl (v' - 1)" by (intro fl_mono) simp
  then have "fl (fl (v - 1) / 4) \<le> fl (fl (v' - 1) / 4)" by (intro fl_mono) simp
  then show ?thesis by (intro fl_mono) simp
qed

lemma rescale_one: "fl (fl (fl (1 - 1) / 4) * 100) = 0"
  by (simp add: fl_zero)

lemma rescale_five: "fl (fl (fl (5 - 1) / 4) * 100) = 100"
  by (simp add: fl_four fl_one fl_hundred)

lemma starEstimate_double_fields:
  "estimatedConfidencePercent (starEstimate_double revs)
     = fl (fl (fl (fst (getMeanAndSE_double revs) - 1) / 4) * 100)"
  "displayLowerBound (starEstimate_double revs)
     = max 0 (fl (fl (fl (fl (fst (getMeanAndSE_double revs)
           - fl (snd (getMeanAndSE_double revs) * fl (196 / 100))) - 1) / 4) * 100))"
  "displayUpperBound (starEstimate_double revs)
     = min 100 (fl (fl (fl (fl (fst (getMeanAndSE_double revs)
           + fl (snd (getMeanAndSE_double revs) * fl (196 / 100))) - 1) / 4) * 100))"
  by (simp_all add: starEstimate_double_def get_confidence_int_double_def Let_def
      split: prod.split)

lemma sumArray_double_five:
  "sumArray_double [a, b, c, d, e] = fl (fl (fl (fl (fl a + b) + c) + d) + e)"
  by (simp add: sumArray_double_def)

lemma sumArray_double_exact:
  fixes a b c d e :: nat
  assumes "a + b + c + d + e \<le> 2 ^ 53"
  shows "sumArray_double [real a, real b, real c, real d, real e]
           = real (a + b + c + d + e)"
proof -
  from assms have "a \<le> 2 ^ 53" "a + b \<le> 2 ^ 53" "a + b + c \<le> 2 ^ 53" "a + b + c + d \<le> 2 ^ 53"
    by simp_all
  then have s: "fl (real a) = real a" "fl (real (a + b)) = real (a + b)"
    "fl (real (a + b + c)) = real (a + b + c)" "fl (real (a + b + c + d)) = real (a + b + c + d)"
    "fl (real (a + b + c + d + e)) = real (a + b + c + d + e)"
    using assms by (simp_all only: fl_nat)
  have "fl (fl (fl (fl (fl (real a) + real b) + real c) + real d) + real e)
      = real (a + b + c + d + e)"
    by (simp only: s of_nat_add [symmetric])
  then show ?thesis
    by (simp only: sumArray_double_five)
qed

lemma weightedSum_double_exact:
  fixes a b c d e :: nat
  assumes "5 * (a + b + c + d + e) \<le> 2 ^ 53"
  shows "foldl (\<lambda>weightedSum i.
            fl (weightedSum + fl ([real a, real b, real c, real d, real e] ! i * (5 - real i))))
          0 [0..<5]
        = real (5 * a + 4 * b + 3 * c + 2 * d + e)"
proof -
  from assms have "5 * a \<le> 2 ^ 53" "4 * b \<le> 2 ^ 53" "3 * c \<le> 2 ^ 53" "2 * d \<le> 2 ^ 53"
    "5 * a + 4 * b \<le> 2 ^ 53" "5 * a + 4 * b + 3 * c \<le> 2 ^ 53"
    "5 * a + 4 * b + 3 * c + 2 * d \<le> 2 ^ 53" "5 * a + 4 * b + 3 * c + 2 * d + e \<le> 2 ^ 53"
    "e \<le> 2 ^ 53"
    by simp_all
  then have s: "fl (real (5 * a)) = real (5 * a)" "fl (real (4 * b)) = real (4 * b)"
    "fl (real (3 * c)) = real (3 * c)" "fl (real (2 * d)) = real (2 * d)" "fl (real e) = real e"
    "fl (real (5 * a + 4 * b)) = real (5 * a + 4 * b)"
    "fl (real (5 * a + 4 * b + 3 * c)) = real (5 * a + 4 * b + 3 * c)"
    "fl (real (5 * a + 4 * b + 3 * c + 2 * d)) = real (5 * a + 4 * b + 3 * c + 2 * d)"
    "fl (real (5 * a + 4 * b + 3 * c + 2 * d + e)) = real (5 * a + 4 * b + 3 * c + 2 * d + e)"
    by (simp_all only: fl_nat)
  have p: "real a * 5 = real (5 * a)" "real b * 4 = real (4 * b)" "real c * 3 = real (3 * c)"
    "real d * 2 = real (2 * d)"
    by simp_all
  have "fl (fl (fl (fl (fl (fl (real a * 5)) + fl (real b * 4)) + fl (real c * 3))
            + fl (real d * 2)) + fl (real e))
      = real (5 * a + 4 * b + 3 * c + 2 * d + e)"
    by (simp only: p s of_nat_add [symmetric])
  then show ?thesis
    by (simp add: upt5)
qed

lemma mean_stars_double_exact:
  fixes a b c d e :: nat
  assumes "5 * (a + b + c + d + e) \<le> 2 ^ 53" and "0 < a + b + c + d + e"
  shows "mean_stars_double [real a, real b, real c, real d, real e]
           = fl (real (5 * a + 4 * b + 3 * c + 2 * d + e) / real (a + b + c + d + e))"
proof -
  from assms(1) have t: "a + b + c + d + e \<le> 2 ^ 53" by simp
  from assms(2) have "real (a + b + c + d + e) \<noteq> 0"
    by (simp only: of_nat_eq_0_iff)
  then show ?thesis
    unfolding mean_stars_double_def Let_def
    by (simp only: sumArray_double_exact [OF t] weightedSum_double_exact [OF assms(1)])
       simp
qed


lemma mean_stars_double_range:
  fixes counts :: "nat list"
  assumes "length counts = 5" and "0 < sum_list counts" and "5 * sum_list counts \<le> 2 ^ 53"
  shows "1 \<le> mean_stars_double (map real counts)"
    and "mean_stars_double (map real counts) \<le> 5"
proof -
  from assms(1) obtain a b c d e where xs: "counts = [a, b, c, d, e]"
    by (rule length5E)
  let ?t = "real (a + b + c + d + e)"
  let ?w = "real (5 * a + 4 * b + 3 * c + 2 * d + e)"
  from assms(2) xs have t0: "0 < a + b + c + d + e" by simp
  then have t: "0 < ?t" by (simp only: of_nat_0_less_iff)
  from assms(3) xs have "5 * (a + b + c + d + e) \<le> 2 ^ 53" by simp
  then have m: "mean_stars_double (map real counts) = fl (?w / ?t)"
    using t0 by (simp add: xs mean_stars_double_exact del: of_nat_add of_nat_mult)
  have "?t \<le> ?w" by (simp only: of_nat_le_iff)
  with t have "1 \<le> ?w / ?t" by (simp only: le_divide_eq_1_pos)
  then have "fl 1 \<le> fl (?w / ?t)" by (rule fl_mono)
  then show "1 \<le> mean_stars_double (map real counts)"
    by (simp only: m fl_one)
  have "5 * a + 4 * b + 3 * c + 2 * d + e \<le> 5 * (a + b + c + d + e)" by simp
  then have "?w \<le> real (5 * (a + b + c + d + e))" by (simp only: of_nat_le_iff)
  then have "?w \<le> 5 * ?t" by simp
  with t have "?w / ?t \<le> 5" by (simp only: pos_divide_le_eq)
  then have "fl (?w / ?t) \<le> fl 5" by (rule fl_mono)
  then show "mean_stars_double (map real counts) \<le> 5"
    by (simp only: m fl_five)
qed

lemma standard_dev_stars_double_nonneg:
  fixes counts :: "nat list"
  shows "0 \<le> standard_dev_stars_double (map real counts) mu"
proof (cases "length counts = 5")
  case True
  then obtain a b c d e where xs: "counts = [a, b, c, d, e]"
    by (rule length5E)
  show ?thesis
    unfolding xs standard_dev_stars_double_def Let_def
    by (simp add: upt5 fl_nonneg)
next
  case False
  then show ?thesis by (simp add: standard_dev_stars_double_def)
qed

lemma se_stars_double_nonneg:
  fixes counts :: "nat list"
  shows "0 \<le> snd (getMeanAndSE_double (map real counts))"
  by (simp add: getMeanAndSE_double_fields standard_dev_stars_double_nonneg fl_nonneg)

lemma mean_stars_double_is_double: "fl (mean_stars_double revs) = mean_stars_double revs"
  by (simp add: mean_stars_double_def Let_def fl_idem fl_zero)

lemma fl_196_nonneg: "0 \<le> fl (196 / 100)"
  by (intro fl_nonneg) simp

lemma checkConfidence_Results:
  fixes counts :: "nat list"
  assumes "length counts = 5" and "0 < sum_list counts" and "5 * sum_list counts \<le> 2 ^ 53"
    and "truthy (placeName d)" and "reviewsCount d = Number c"
    and "starCounts d = Some (map real counts)"
  shows "checkConfidence (Some d) = Results (starEstimate_double (map real counts))"
proof -
  from assms(1) obtain a b c d e where xs: "counts = [a, b, c, d, e]"
    by (rule length5E)
  from assms(3) xs have "a + b + c + d + e \<le> 2 ^ 53" by simp
  then have s: "sumArray_double (map real counts) = real (sum_list counts)"
    by (simp add: xs sumArray_double_exact del: of_nat_add)
  from assms(2) have "0 < real (sum_list counts)"
    by (simp only: of_nat_0_less_iff)
  then have "sumArray_double (map real counts) \<noteq> 0"
    unfolding s by (rule less_imp_neq [THEN not_sym])
  with assms(1,4,5,6) show ?thesis
    by (simp add: checkConfidence_def sumArray_call_def fillTemplate_def)
qed

text \<open>
  Claim C2, amended to what the code does in double precision. On the
  star-distribution path, for every list of five non-negative integer star counts
  whose sum is positive and at most \<open>2\<^sup>5\<^sup>3 / 5\<close>, so that the sums of the code are
  exact, the handler shows a computed estimate, and its three percentages satisfy
  \<open>lower \<le> point \<le> upper\<close> with all three in \<open>[0, 100]\<close>. The point estimate is
  the rescaled mean as it is: the code clamps the two bounds only, the lower one
  from below by \<open>max 0\<close> and the upper one from above by \<open>min 100\<close>.
\<close>

theorem star_estimate_invariant_double:
  fixes counts :: "nat list"
  assumes "length counts = 5" and "0 < sum_list counts" and "5 * sum_list counts \<le> 2 ^ 53"
    and "truthy (placeName d)" and "reviewsCount d = Number c"
    and "starCounts d = Some (map real counts)"
  shows "checkConfidence (Some d) = Results (starEstimate_double (map real counts))
       \<and> estimatedConfidencePercent (starEstimate_double (map real counts))
           = fl (fl (fl (mean_stars_double (map real counts) - 1) / 4) * 100)
       \<and> displayLowerBound (starEstimate_double (map real counts))
           \<le> estimatedConfidencePercent (starEstimate_double (map real counts))
       \<and> estimatedConfidencePercent (starEstimate_double (map real counts))
           \<le> displayUpperBound (starEstimate_double (map real counts))
       \<and> 0 \<le> displayLowerBound (starEstimate_double (map real counts))
       \<and> displayLowerBound (starEstimate_double (map real counts)) \<le> 100
       \<and> 0 \<le> estimatedConfidencePercent (starEstimate_double (map real counts))
       \<and> estimatedConfidencePercent (starEstimate_double (map real counts)) \<le> 100
       \<and> 0 \<le> displayUpperBound (starEstimate_double (map real counts))
       \<and> displayUpperBound (starEstimate_double (map real counts)) \<le> 100"
proof -
  let ?revs = "map real counts"
  let ?m = "mean_stars_double ?revs"
  let ?s = "snd (getMeanAndSE_double ?revs)"
  let ?e = "starEstimate_double ?revs"
  let ?P = "fl (fl (fl (?m - 1) / 4) * 100)"
  let ?L = "fl (fl (fl (fl (?m - fl (?s * fl (196 / 100))) - 1) / 4) * 100)"
  let ?U = "fl (fl (fl (fl (?m + fl (?s * fl (196 / 100))) - 1) / 4) * 100)"
  have r: "checkConfidence (Some d) = Results ?e"
    using assms by (rule checkConfidence_Results)
  have m1: "1 \<le> ?m" and m5: "?m \<le> 5"
    using assms(1,2,3) by (rule mean_stars_double_range)+
  have s0: "0 \<le> ?s" by (rule se_stars_double_nonneg)
  then have "0 \<le> ?s * fl (196 / 100)"
    using fl_196_nonneg by (rule mult_nonneg_nonneg)
  then have h: "0 \<le> fl (?s * fl (196 / 100))"
    by (rule fl_nonneg)
  have p: "estimatedConfidencePercent ?e = ?P"
    by (simp add: starEstimate_double_fields getMeanAndSE_double_fields)
  have lo: "displayLowerBound ?e = max 0 ?L"
    by (simp add: starEstimate_double_fields getMeanAndSE_double_fields(1))
  have up: "displayUpperBound ?e = min 100 ?U"
    by (simp add: starEstimate_double_fields getMeanAndSE_double_fields(1))
  have "fl (fl (fl (1 - 1) / 4) * 100) \<le> ?P"
    using m1 by (rule rescale_mono)
  then have p0: "0 \<le> ?P" by (simp only: rescale_one)
  have "?P \<le> fl (fl (fl (5 - 1) / 4) * 100)"
    using m5 by (rule rescale_mono)
  then have p100: "?P \<le> 100" by (simp only: rescale_five)
  from h have "fl (?m - fl (?s * fl (196 / 100))) \<le> fl ?m"
    by (intro fl_mono) simp
  then have "fl (?m - fl (?s * fl (196 / 100))) \<le> ?m"
    by (simp only: mean_stars_double_is_double)
  then have "?L \<le> ?P" by (rule rescale_mono)
  with p0 have lp: "max 0 ?L \<le> ?P" by simp
  from h have "fl ?m \<le> fl (?m + fl (?s * fl (196 / 100)))"
    by (intro fl_mono) simp
  then have "?m \<le> fl (?m + fl (?s * fl (196 / 100)))"
    by (simp only: mean_stars_double_is_double)
  then have "?P \<le> ?U" by (rule rescale_mono)
  with p100 have pu: "?P \<le> min 100 ?U" by simp
  have l0: "0 \<le> max 0 ?L" by simp
  have u100: "min 100 ?U \<le> 100" by simp
  from lp p100 have l100: "max 0 ?L \<le> 100" by linarith
  from p0 pu have u0: "0 \<le> min 100 ?U" by linarith
  from r p lp pu l0 l100 p0 p100 u0 u100 show ?thesis
    unfolding lo up p by blast
qed

theorem star_estimate_invariant_double_witness:
  "length [5, 5, 0, 0, 0 :: nat] = 5 \<and> 0 < sum_list [5, 5, 0, 0, 0 :: nat]
   \<and> 5 * sum_list [5, 5, 0, 0, 0 :: nat] \<le> 2 ^ 53
   \<and> checkConfidence (Some \<lparr>placeName = Some ''Blue Cafe'', reviewsCount = Number 10,
         category = ''Cafe'', starCounts = Some (map real [5, 5, 0, 0, 0])\<rparr>)
       = Results (starEstimate_double (map real [5, 5, 0, 0, 0]))
   \<and> displayLowerBound (starEstimate_double (map real [5, 5, 0, 0, 0]))
       \<le> estimatedConfidencePercent (starEstimate_double (map real [5, 5, 0, 0, 0]))
   \<and> estimatedConfidencePercent (starEstimate_double (map real [5, 5, 0, 0, 0]))
       \<le> displayUpperBound (starEstimate_double (map real [5, 5, 0, 0, 0]))
   \<and> 0 \<le> displayLowerBound (starEstimate_double (map real [5, 5, 0, 0, 0]))
   \<and> displayUpperBound (starEstimate_double (map real [5, 5, 0, 0, 0])) \<le> 100"
proof -
  let ?d = "\<lparr>placeName = Some ''Blue Cafe'', reviewsCount = Number 10,
         category = ''Cafe'', starCounts = Some (map real [5, 5, 0, 0, 0])\<rparr>"
  have h1: "length [5, 5, 0, 0, 0 :: nat] = 5" by simp
  have h2: "0 < sum_list [5, 5, 0, 0, 0 :: nat]" by simp
  have h3: "5 * sum_list [5, 5, 0, 0, 0 :: nat] \<le> 2 ^ 53" by simp
  have h4: "truthy (placeName ?d)" by (simp add: truthy_def)
  have h5: "reviewsCount ?d = Number 10" by simp
  have h6: "starCounts ?d = Some (map real [5, 5, 0, 0, 0])" by simp
  from star_estimate_invariant_double [OF h1 h2 h3 h4 h5 h6] h1 h2 h3 show ?thesis
    by blast
qed

text \<open>
  Beyond this bound the invariant fails: for \<open>1801439850948199\<close> five-star reviews
  and no others the product \<open>1801439850948199 * 5\<close> is rounded up, the mean is
  \<open>5 + 2\<^sup>-\<^sup>5\<^sup>0\<close>, the point estimate is \<^verbatim>\<open>100.00000000000003\<close>, and the upper
  bound, which is clamped, is at most \<open>100\<close>.
\<close>

lemma fl_tie_5a: "fl 9007199254740995 = 9007199254740996"
  by (subst fl_eval_div [where k = 1]) (simp_all add: rne_def)

lemma fl_5a: "fl 9007199254740996 = 9007199254740996"
  by (subst fl_eval_div [where k = 1]) (simp_all add: rne_def)

lemma point_double_eval:
  assumes "mean_stars_double revs = m" and "fl (m - 1) = p1" and "fl (p1 / 4) = p2"
    and "fl (p2 * 100) = p"
  shows "estimatedConfidencePercent (starEstimate_double revs) = p"
  using assms by (simp add: starEstimate_double_fields getMeanAndSE_double_fields)

lemma mean_stars_double_huge:
  "mean_stars_double (map real [1801439850948199, 0, 0, 0, 0])
     = 5629499534213121 / 1125899906842624"
proof -
  have t: "sumArray_double (map real [1801439850948199, 0, 0, 0, 0]) = 1801439850948199"
    using sumArray_double_exact [of 1801439850948199 0 0 0 0] by simp
  have q: "fl (9007199254740996 / 1801439850948199) = 5629499534213121 / 1125899906842624"
    by (subst fl_eval_mul [where k = 50]) (simp_all add: rne_def)
  show ?thesis
    unfolding mean_stars_double_def Let_def t
    by (simp add: upt5 fl_zero fl_tie_5a fl_5a q)
qed

lemma point_double_huge:
  "estimatedConfidencePercent (starEstimate_double (map real [1801439850948199, 0, 0, 0, 0]))
     = 3518437208883201 / 35184372088832"
proof (rule point_double_eval [OF mean_stars_double_huge,
      where ?p1.0 = "4503599627370497 / 1125899906842624"
        and ?p2.0 = "4503599627370497 / 4503599627370496"])
  show "fl (5629499534213121 / 1125899906842624 - 1) = 4503599627370497 / 1125899906842624"
    by (subst fl_eval_mul [where k = 50]) (simp_all add: rne_def)
  show "fl (4503599627370497 / 1125899906842624 / 4) = 4503599627370497 / 4503599627370496"
    by (subst fl_eval_mul [where k = 52]) (simp_all add: rne_def)
  show "fl (4503599627370497 / 4503599627370496 * 100) = 3518437208883201 / 35184372088832"
    by (subst fl_eval_mul [where k = 46]) (simp_all add: rne_def)
qed

theorem star_estimate_invariant_fails:
  "length [1801439850948199, 0, 0, 0, 0 :: nat] = 5
   \<and> 0 < sum_list [1801439850948199, 0, 0, 0, 0 :: nat]
   \<and> checkConfidence (Some \<lparr>placeName = Some ''Blue Cafe'',
         reviewsCount = Number 1801439850948199, category = ''Cafe'',
         starCounts = Some (map real [1801439850948199, 0, 0, 0, 0])\<rparr>)
       = Results (starEstimate_double (map real [1801439850948199, 0, 0, 0, 0]))
   \<and> \<not> estimatedConfidencePercent
          (starEstimate_double (map real [1801439850948199, 0, 0, 0, 0]))
        \<le> displayUpperBound
          (starEstimate_double (map real [1801439850948199, 0, 0, 0, 0]))
   \<and> \<not> estimatedConfidencePercent
          (starEstimate_double (map real [1801439850948199, 0, 0, 0, 0])) \<le> 100"
proof -
  let ?xs = "map real [1801439850948199, 0, 0, 0, 0]"
  have t: "sumArray_double ?xs = 1801439850948199"
    using sumArray_double_exact [of 1801439850948199 0 0 0 0] by simp
  have r: "checkConfidence (Some \<lparr>placeName = Some ''Blue Cafe'',
         reviewsCount = Number 1801439850948199, category = ''Cafe'',
         starCounts = Some ?xs\<rparr>) = Results (starEstimate_double ?xs)"
    by (simp add: checkConfidence_def truthy_def sumArray_call_def fillTemplate_def t
        del: list.map)
  have u: "displayUpperBound (starEstimate_double ?xs) \<le> 100"
    by (simp add: starEstimate_double_fields del: list.map)
  have p: "\<not> estimatedConfidencePercent (starEstimate_double ?xs) \<le> 100"
    unfolding point_double_huge by simp
  from u p have "\<not> estimatedConfidencePercent (starEstimate_double ?xs)
      \<le> displayUpperBound (starEstimate_double ?xs)"
    by linarith
  with r p show ?thesis by simp
qed

end
